theory Spec2Isabelle
  imports Main
begin

section \<open>JavaScript values used by the metadata manager\<close>

text \<open>
  Chat ids, topic ids and message ids are JavaScript numbers that hold integers, in the
  range where a number is exact and prints in plain decimal (the safe integers, up to
  \<open>2^53 - 1\<close> in magnitude); they are modelled as \<open>int\<close>.
  The group id of a metadata structure can also be \<open>null\<close> (the empty structure) or \<open>NaN\<close>
  (a group chunk that \<open>parseInt\<close> rejects). Strings are lists of characters, one character
  per code unit; the type \<open>char\<close> holds the code units below 256, so a text with a code
  unit above that is outside the model.
\<close>

datatype jsnum = Null | NaN | Num int

text \<open>Truthiness of a number read from a Map or from a reply: \<open>undefined\<close> and \<open>0\<close> are falsy.\<close>

definition truthy :: "int option \<Rightarrow> bool" where
  "truthy v = (case v of None \<Rightarrow> False | Some n \<Rightarrow> n \<noteq> 0)"

definition truthyNum :: "jsnum \<Rightarrow> bool" where
  "truthyNum g = (case g of Num n \<Rightarrow> n \<noteq> 0 | _ \<Rightarrow> False)"

subsection \<open>Number.prototype.toString and parseInt(s, 10)\<close>

definition digitChar :: "nat \<Rightarrow> char" where
  "digitChar d = ''0123456789'' ! d"

definition digitVal :: "char \<Rightarrow> nat option" where
  "digitVal c = (if c \<in> set ''0123456789'' then Some (of_char c - 48) else None)"

fun digits :: "nat \<Rightarrow> string" where
  "digits n = (if n < 10 then [digitChar n] else digits (n div 10) @ [digitChar (n mod 10)])"

declare digits.simps [simp del]

definition toString :: "int \<Rightarrow> string" where
  "toString i = (if i < 0 then CHR ''-'' # digits (nat (- i)) else digits (nat i))"

text \<open>
  White space and line terminators that \<open>parseInt\<close> skips, among the code units below 256:
  tab, line feed, vertical tab, form feed, carriage return, space and no-break space
  (\<open>U+00A0\<close>). The others (\<open>U+1680\<close>, \<open>U+2000\<close> to \<open>U+200A\<close>, \<open>U+2028\<close>, \<open>U+2029\<close>,
  \<open>U+202F\<close>, \<open>U+205F\<close>, \<open>U+3000\<close>, \<open>U+FEFF\<close>) are not values of \<open>char\<close>.
\<close>

definition isWhiteSpace :: "char \<Rightarrow> bool" where
  "isWhiteSpace c =
     (c \<in> set [CHR 0x09, CHR 0x0A, CHR 0x0B, CHR 0x0C, CHR 0x0D, CHR 0x20, CHR 0xA0])"

text \<open>The longest prefix of decimal digits, as a number; \<open>None\<close> when there is no digit.\<close>

fun parseDigits :: "nat option \<Rightarrow> string \<Rightarrow> nat option" where
  "parseDigits acc [] = acc"
| "parseDigits acc (c # cs) =
     (case digitVal c of
        None \<Rightarrow> acc
      | Some d \<Rightarrow> parseDigits (Some (10 * (case acc of None \<Rightarrow> 0 | Some a \<Rightarrow> a) + d)) cs)"

text \<open>
  \<open>parseInt(s, 10)\<close>; \<open>None\<close> is \<open>NaN\<close>. White space is skipped, then an optional sign, then
  the longest run of decimal digits is read and what follows it is ignored; without a
  digit there the result is \<open>NaN\<close>. The result is \<open>NaN\<close> here exactly when it is in the code.
  The value is the one of the code when it is a safe integer; beyond that the code rounds
  to a double and this function does not.
\<close>

definition parseInt :: "string \<Rightarrow> int option" where
  "parseInt s =
     (case dropWhile isWhiteSpace s of
        [] \<Rightarrow> None
      | c # r \<Rightarrow>
          if c = CHR ''-'' then map_option (\<lambda>n. - int n) (parseDigits None r)
          else if c = CHR ''+'' then map_option int (parseDigits None r)
          else map_option int (parseDigits None (c # r)))"

subsection \<open>String.prototype.split, Array.prototype.join, includes, startsWith\<close>

fun splitOn :: "char \<Rightarrow> string \<Rightarrow> string list" where
  "splitOn sep [] = [[]]"
| "splitOn sep (c # cs) =
     (if c = sep then [] # splitOn sep cs
      else (case splitOn sep cs of [] \<Rightarrow> [[c]] | x # xs \<Rightarrow> (c # x) # xs))"

fun joinWith :: "string \<Rightarrow> string list \<Rightarrow> string" where
  "joinWith sep [] = []"
| "joinWith sep [x] = x"
| "joinWith sep (x # y # ys) = x @ sep @ joinWith sep (y # ys)"

fun startsWith :: "string \<Rightarrow> string \<Rightarrow> bool" where
  "startsWith s [] = True"
| "startsWith [] (p # ps) = False"
| "startsWith (c # cs) (p # ps) = (c = p \<and> startsWith cs ps)"

fun includesStr :: "string \<Rightarrow> string \<Rightarrow> bool" where
  "includesStr [] p = (p = [])"
| "includesStr (c # cs) p = (startsWith (c # cs) p \<or> includesStr cs p)"

text \<open>\<open>Array.prototype.indexOf\<close> (\<open>-1\<close> when absent) and \<open>splice(idx, 1)\<close>.\<close>

fun indexOf :: "'a list \<Rightarrow> 'a \<Rightarrow> int" where
  "indexOf [] k = - 1"
| "indexOf (x # xs) k =
     (if x = k then 0 else (let i = indexOf xs k in if i = - 1 then - 1 else i + 1))"

definition splice1 :: "'a list \<Rightarrow> nat \<Rightarrow> 'a list" where
  "splice1 xs idx = take idx xs @ drop (Suc idx) xs"

subsection \<open>Map: insertion-ordered, one entry per key\<close>

text \<open>
  A JavaScript \<open>Map\<close> is the list of its entries in insertion order. \<open>set\<close> on a key
  that is present replaces the value where the entry stands; on a new key it appends.
\<close>

fun Map_get :: "('k \<times> 'v) list \<Rightarrow> 'k \<Rightarrow> 'v option" where
  "Map_get [] k = None"
| "Map_get ((k', v) # m) k = (if k' = k then Some v else Map_get m k)"

fun Map_set :: "('k \<times> 'v) list \<Rightarrow> 'k \<Rightarrow> 'v \<Rightarrow> ('k \<times> 'v) list" where
  "Map_set [] k v = [(k, v)]"
| "Map_set ((k', v') # m) k v = (if k' = k then (k, v) # m else (k', v') # Map_set m k v)"

definition Map_delete :: "('k \<times> 'v) list \<Rightarrow> 'k \<Rightarrow> ('k \<times> 'v) list" where
  "Map_delete m k = filter (\<lambda>p. fst p \<noteq> k) m"

definition Map_has :: "('k \<times> 'v) list \<Rightarrow> 'k \<Rightarrow> bool" where
  "Map_has m k = (Map_get m k \<noteq> None)"

section \<open>The metadata structure and its store operations\<close>

record metadata =
  superGroupChatId :: jsnum
  topicToFromChat :: "(int \<times> int) list"
  fromChatToTopic :: "(int \<times> int) list"
  bannedTopics :: "string list"
  topicToComment :: "(int \<times> string) list"
  fromChatToComment :: "(int \<times> string) list"

definition emptyMetadata :: metadata where
  "emptyMetadata =
     \<lparr>superGroupChatId = Null, topicToFromChat = [], fromChatToTopic = [],
      bannedTopics = [], topicToComment = [], fromChatToComment = []\<rparr>"

text \<open>\<open>upsertMapping(data, topicId, fromChatId, commentName)\<close>; the label is optional and
  is stored only when it is a non-empty string.\<close>

definition upsertMapping :: "metadata \<Rightarrow> int \<Rightarrow> int \<Rightarrow> string option \<Rightarrow> metadata" where
  "upsertMapping data topicId fromChatId commentName =
     (let d1 = data\<lparr>topicToFromChat := Map_set (topicToFromChat data) topicId fromChatId,
                     fromChatToTopic := Map_set (fromChatToTopic data) fromChatId topicId\<rparr>
      in case commentName of
           None \<Rightarrow> d1
         | Some c \<Rightarrow>
             if c = [] then d1
             else d1\<lparr>topicToComment := Map_set (topicToComment d1) topicId c,
                     fromChatToComment := Map_set (fromChatToComment d1) fromChatId c\<rparr>)"

definition markBan :: "metadata \<Rightarrow> int \<Rightarrow> bool \<Rightarrow> metadata" where
  "markBan data topicId banned =
     (let topicKey = toString topicId;
          idx = indexOf (bannedTopics data) topicKey;
          d1 = (if banned \<and> idx = - 1
                then data\<lparr>bannedTopics := bannedTopics data @ [topicKey]\<rparr> else data)
      in if \<not> banned \<and> idx \<noteq> - 1
         then d1\<lparr>bannedTopics := splice1 (bannedTopics d1) (nat idx)\<rparr> else d1)"

definition removeMapping :: "metadata \<Rightarrow> int \<Rightarrow> metadata" where
  "removeMapping data topicId =
     (let fromChatId = Map_get (topicToFromChat data) topicId;
          d1 = (if truthy fromChatId
                then data\<lparr>fromChatToTopic := Map_delete (fromChatToTopic data) (the fromChatId),
                          fromChatToComment := Map_delete (fromChatToComment data) (the fromChatId)\<rparr>
                else data);
          d2 = d1\<lparr>topicToFromChat := Map_delete (topicToFromChat d1) topicId,
                   topicToComment := Map_delete (topicToComment d1) topicId\<rparr>;
          bannedKey = toString topicId;
          bannedIdx = indexOf (bannedTopics d2) bannedKey
      in if bannedIdx \<ge> 0
         then d2\<lparr>bannedTopics := splice1 (bannedTopics d2) (nat bannedIdx)\<rparr> else d2)"

text \<open>\<open>isTopicBanned\<close> of the ban manager.\<close>

definition isTopicBanned :: "metadata \<Rightarrow> int \<Rightarrow> bool" where
  "isTopicBanned metaData topicId = (toString topicId \<in> set (bannedTopics metaData))"

text \<open>
  The two binding maps are mutual inverses: every topic key maps to a user chat that maps
  back to it, and every user chat key maps to a topic that maps back to it.
\<close>

definition mutualInverse :: "metadata \<Rightarrow> bool" where
  "mutualInverse d =
     (list_all (\<lambda>t. case Map_get (topicToFromChat d) t of
                      None \<Rightarrow> True
                    | Some u \<Rightarrow> Map_get (fromChatToTopic d) u = Some t)
               (map fst (topicToFromChat d)) \<and>
      list_all (\<lambda>u. case Map_get (fromChatToTopic d) u of
                      None \<Rightarrow> True
                    | Some t \<Rightarrow> Map_get (topicToFromChat d) t = Some u)
               (map fst (fromChatToTopic d)))"

section \<open>The metadata codec\<close>

definition MAX_TEXT_LENGTH :: nat where
  "MAX_TEXT_LENGTH = 4096"

text \<open>\<open>comment.replace(/[;:]/g, '')\<close>.\<close>

definition stripDelims :: "string \<Rightarrow> string" where
  "stripDelims c = filter (\<lambda>ch. ch \<noteq> CHR '';'' \<and> ch \<noteq> CHR '':'') c"

text \<open>How \<open>Array.prototype.join\<close> prints the group id: \<open>null\<close> is the empty string.\<close>

definition joinElem :: "jsnum \<Rightarrow> string" where
  "joinElem g = (case g of Null \<Rightarrow> [] | NaN \<Rightarrow> ''NaN'' | Num n \<Rightarrow> toString n)"

text \<open>The body of the loop of \<open>stringifyMetadata\<close>: the text of one binding.\<close>

definition encodeItem :: "string list \<Rightarrow> (int \<times> string) list \<Rightarrow> int \<times> int \<Rightarrow> string" where
  "encodeItem banneds comments entry =
     (let topicId = fst entry;
          fromChatId = snd entry;
          banned = (if toString topicId \<in> set banneds then ''b'' else []);
          encodedComment = (case Map_get comments topicId of
                              None \<Rightarrow> []
                            | Some comment \<Rightarrow> stripDelims comment)
      in toString topicId @ '':'' @ banned @ toString fromChatId @
         (if encodedComment \<noteq> [] then '':'' @ encodedComment else []))"

definition stringifyMetadata ::
    "jsnum \<Rightarrow> (int \<times> int) list \<Rightarrow> string list \<Rightarrow> (int \<times> string) list \<Rightarrow> string" where
  "stringifyMetadata groupId bindings banneds comments =
     joinWith '';'' (joinElem groupId # map (encodeItem banneds comments) bindings)"

text \<open>The encoding of a whole structure, as \<open>trimMetadataEntries\<close> calls it.\<close>

definition serialize :: "metadata \<Rightarrow> string" where
  "serialize data =
     stringifyMetadata (superGroupChatId data) (topicToFromChat data) (bannedTopics data)
       (topicToComment data)"

text \<open>
  The loop of \<open>parseMetadataText\<close> over the entries after the group id. An entry whose
  topic id or user chat id is \<open>NaN\<close> is left out (\<open>continue\<close>).
\<close>

fun parsePairs :: "string list \<Rightarrow> metadata \<Rightarrow> metadata" where
  "parsePairs [] data = data"
| "parsePairs (item # pairs) data =
     (let segments = splitOn CHR '':'' item in
      case parseInt (segments ! 0) of
        None \<Rightarrow> parsePairs pairs data
      | Some topicId \<Rightarrow>
          (let userChunk0 = (if 1 < length segments then segments ! 1 else []);
               banned = startsWith userChunk0 ''b'';
               userChunk = (if banned then drop 1 userChunk0 else userChunk0)
           in case parseInt userChunk of
                None \<Rightarrow> parsePairs pairs data
              | Some fromChatId \<Rightarrow>
                  (let commentName = (if 2 < length segments then segments ! 2 else []);
                       d1 = data\<lparr>topicToFromChat := Map_set (topicToFromChat data) topicId fromChatId,
                                  fromChatToTopic := Map_set (fromChatToTopic data) fromChatId topicId\<rparr>;
                       d2 = (if banned
                             then d1\<lparr>bannedTopics := bannedTopics d1 @ [toString topicId]\<rparr>
                             else d1);
                       d3 = (if commentName \<noteq> []
                             then d2\<lparr>topicToComment := Map_set (topicToComment d2) topicId commentName,
                                     fromChatToComment :=
                                       Map_set (fromChatToComment d2) fromChatId commentName\<rparr>
                             else d2)
                   in parsePairs pairs d3)))"

text \<open>\<open>parseMetadataText(text)\<close>; \<open>None\<close> is a \<open>null\<close> or \<open>undefined\<close> text.\<close>

definition parseMetadataText :: "string option \<Rightarrow> metadata" where
  "parseMetadataText text =
     (case text of
        None \<Rightarrow> emptyMetadata
      | Some s \<Rightarrow>
          if s = [] then emptyMetadata
          else (case filter (\<lambda>chunk. chunk \<noteq> []) (splitOn CHR '';'' s) of
                  [] \<Rightarrow> emptyMetadata
                | groupIdRaw # pairs \<Rightarrow>
                    parsePairs pairs
                      (emptyMetadata\<lparr>superGroupChatId :=
                         (case parseInt groupIdRaw of None \<Rightarrow> NaN | Some n \<Rightarrow> Num n)\<rparr>)))"

text \<open>
  The loop of \<open>trimMetadataEntries\<close>. The key iterator of the Map is live: after the
  entry it stands on is deleted, its next key is the oldest entry that is left.
\<close>

function trimLoop :: "metadata \<Rightarrow> string \<times> metadata" where
  "trimLoop data =
     (let serialized = serialize data in
      if MAX_TEXT_LENGTH < length serialized \<and> 0 < length (topicToFromChat data)
      then trimLoop (removeMapping data (fst (hd (topicToFromChat data))))
      else (serialized, data))"
  by pat_completeness auto
termination
proof (relation "measure (\<lambda>data. length (topicToFromChat data))")
  show "wf (measure (\<lambda>data. length (topicToFromChat data)))" by simp
next
  fix data :: metadata and serialized :: string
  assume "MAX_TEXT_LENGTH < length serialized \<and> 0 < length (topicToFromChat data)"
  then obtain p m where pm: "topicToFromChat data = p # m"
    by (cases "topicToFromChat data") auto
  have "length (filter (\<lambda>q. fst q \<noteq> fst p) m) < Suc (length m)"
    using length_filter_le [of "\<lambda>q. fst q \<noteq> fst p" m] by arith
  then have "length (topicToFromChat (removeMapping data (fst (hd (topicToFromChat data)))))
        < length (topicToFromChat data)"
    by (simp add: pm removeMapping_def Let_def Map_delete_def)
  then show "(removeMapping data (fst (hd (topicToFromChat data))), data)
        \<in> measure (\<lambda>data. length (topicToFromChat data))"
    by simp
qed

declare trimLoop.simps [simp del]

text \<open>\<open>trimMetadataEntries(data)\<close> returns the text and leaves \<open>data\<close> trimmed.\<close>

definition trimMetadataEntries :: "metadata \<Rightarrow> string \<times> metadata" where
  "trimMetadataEntries data =
     (let serialized = serialize data in
      if length serialized \<le> MAX_TEXT_LENGTH then (serialized, data)
      else (let r = trimLoop data in (take MAX_TEXT_LENGTH (fst r), snd r)))"

section \<open>The message-link list in the key-value store\<close>

text \<open>
  A message link as it is stored: \<open>{ topicId, topicMessageId, pmMessageId }\<close>. The namespace
  maps a key to the list stored under it (\<open>None\<close> when the key is absent); \<open>get\<close> and \<open>put\<close>
  are taken to succeed, so the \<open>catch\<close> branches that only log are not modelled.
\<close>

record link =
  link_topicId :: int
  link_topicMessageId :: int
  link_pmMessageId :: int

type_synonym kvNamespace = "string \<Rightarrow> link list option"

definition MAX_KV_MAPPINGS :: nat where
  "MAX_KV_MAPPINGS = 1000"

text \<open>A number inside a template literal: \<open>null\<close> prints as \<open>null\<close>.\<close>

definition template :: "jsnum \<Rightarrow> string" where
  "template g = (case g of Null \<Rightarrow> ''null'' | NaN \<Rightarrow> ''NaN'' | Num n \<Rightarrow> toString n)"

definition getKvKey :: "jsnum \<Rightarrow> string" where
  "getKvKey groupId = ''mapping:'' @ template groupId"

definition loadMappingsFromKV :: "kvNamespace \<Rightarrow> jsnum \<Rightarrow> link list" where
  "loadMappingsFromKV kvStore groupId =
     (case kvStore (getKvKey groupId) of None \<Rightarrow> [] | Some data \<Rightarrow> data)"

text \<open>\<open>mappings.slice(-n)\<close>: the last \<open>n\<close> elements, all of them when there are fewer.\<close>

definition sliceLast :: "nat \<Rightarrow> 'a list \<Rightarrow> 'a list" where
  "sliceLast n xs = drop (length xs - n) xs"

definition saveMappingsToKV :: "kvNamespace \<Rightarrow> jsnum \<Rightarrow> link list \<Rightarrow> kvNamespace" where
  "saveMappingsToKV kvStore groupId mappings =
     kvStore(getKvKey groupId \<mapsto> sliceLast MAX_KV_MAPPINGS mappings)"

definition addMessageMappingKV ::
    "kvNamespace \<Rightarrow> jsnum \<Rightarrow> int \<Rightarrow> int \<Rightarrow> int \<Rightarrow> kvNamespace" where
  "addMessageMappingKV kvStore groupId topicId topicMessageId pmMessageId =
     saveMappingsToKV kvStore groupId
       (loadMappingsFromKV kvStore groupId @
        [\<lparr>link_topicId = topicId, link_topicMessageId = topicMessageId,
          link_pmMessageId = pmMessageId\<rparr>])"

text \<open>
  The loops of the two lookups, \<open>for (i = length - 1; i >= 0; i -= 1)\<close>: the second argument
  is \<open>i + 1\<close>. A result is the pair of the two fields of the returned object, \<open>None\<close> for
  \<open>null\<close>.
\<close>

fun scanByPm :: "link list \<Rightarrow> nat \<Rightarrow> int \<Rightarrow> int option \<times> int option" where
  "scanByPm mappings 0 pmMessageId = (None, None)"
| "scanByPm mappings (Suc i) pmMessageId =
     (let entry = mappings ! i in
      if link_pmMessageId entry = pmMessageId
      then (Some (link_topicId entry), Some (link_topicMessageId entry))
      else scanByPm mappings i pmMessageId)"

fun scanByTopicMessage :: "link list \<Rightarrow> nat \<Rightarrow> int \<Rightarrow> int option \<times> int option" where
  "scanByTopicMessage mappings 0 topicMessageId = (None, None)"
| "scanByTopicMessage mappings (Suc i) topicMessageId =
     (let entry = mappings ! i in
      if link_topicMessageId entry = topicMessageId
      then (Some (link_topicId entry), Some (link_pmMessageId entry))
      else scanByTopicMessage mappings i topicMessageId)"

text \<open>\<open>findTopicMessageIdKV\<close> returns \<open>{ topicId, topicMessageId }\<close>.\<close>

definition findTopicMessageIdKV :: "kvNamespace \<Rightarrow> jsnum \<Rightarrow> int \<Rightarrow> int option \<times> int option" where
  "findTopicMessageIdKV kvStore groupId pmMessageId =
     (let mappings = loadMappingsFromKV kvStore groupId
      in scanByPm mappings (length mappings) pmMessageId)"

text \<open>\<open>findPmMessageIdKV\<close> returns \<open>{ topicId, pmMessageId }\<close>.\<close>

definition findPmMessageIdKV :: "kvNamespace \<Rightarrow> jsnum \<Rightarrow> int \<Rightarrow> int option \<times> int option" where
  "findPmMessageIdKV kvStore groupId topicMessageId =
     (let mappings = loadMappingsFromKV kvStore groupId
      in scanByTopicMessage mappings (length mappings) topicMessageId)"

text \<open>A sequence of appends, each through \<open>addMessageMappingKV\<close>, oldest first.\<close>

fun appendLinks :: "kvNamespace \<Rightarrow> jsnum \<Rightarrow> link list \<Rightarrow> kvNamespace" where
  "appendLinks kvStore groupId [] = kvStore"
| "appendLinks kvStore groupId (l # ls) =
     appendLinks
       (addMessageMappingKV kvStore groupId (link_topicId l) (link_topicMessageId l)
          (link_pmMessageId l))
       groupId ls"

text \<open>A store with three links; the user-side message \<open>1\<close> appears twice.\<close>

definition exampleLinks :: "link list" where
  "exampleLinks =
     [\<lparr>link_topicId = 10, link_topicMessageId = 100, link_pmMessageId = 1\<rparr>,
      \<lparr>link_topicId = 10, link_topicMessageId = 101, link_pmMessageId = 2\<rparr>,
      \<lparr>link_topicId = 11, link_topicMessageId = 101, link_pmMessageId = 1\<rparr>]"

definition exampleKv :: kvNamespace where
  "exampleKv = Map.empty(getKvKey (Num (- 100123)) \<mapsto> exampleLinks)"

text \<open>One link followed by a thousand copies of another: 1001 appends.\<close>

definition manyLinks :: "link list" where
  "manyLinks =
     \<lparr>link_topicId = 10, link_topicMessageId = 100, link_pmMessageId = 1\<rparr> #
     replicate 1000 \<lparr>link_topicId = 10, link_topicMessageId = 200, link_pmMessageId = 2\<rparr>"

section \<open>The gateway and the state of one event\<close>

text \<open>
  A request that \<open>postToTelegramApi\<close> sends. Only what the engine decides is kept of a
  request body: the chats, the ids and the kind of text. The topic name built for
  \<open>createForumTopic\<close> and the wording of notices are left out.
\<close>

datatype notice = BlockedNotice | CreateTopicFailed | ForwardFailed | ApiFailure

datatype marker = Sent | Failed

datatype call =
    GetChatMember jsnum int
  | CreateForumTopic jsnum
  | CopyMessage jsnum int int int "int option"
  | SendNotice int notice
  | SendMappingText jsnum string
  | PinChatMessage jsnum "int option"
  | EditMappingText jsnum int string
  | EditMetadataText int "int option" string
  | GetChat jsnum
  | SetMessageReaction int int marker

text \<open>The method of the two \<open>sendMessage\<close> requests.\<close>

fun isSendMessage :: "call \<Rightarrow> bool" where
  "isSendMessage (SendNotice chat n) = True"
| "isSendMessage (SendMappingText chat t) = True"
| "isSendMessage c = False"

fun isCopyMessage :: "call \<Rightarrow> bool" where
  "isCopyMessage (CopyMessage chat fromChat messageId threadId replyTo) = True"
| "isCopyMessage c = False"

text \<open>
  A reply \<open>{ ok, result?, description? }\<close>, with the fields of \<open>result\<close> that the engine
  reads. A message object, such as the pinned metadata message, is a \<open>result\<close>.
\<close>

record result =
  res_message_id :: "int option"
  res_message_thread_id :: "int option"
  res_status :: "string option"
  res_pinned_text :: "string option"
  res_pinned_message_id :: "int option"

record reply =
  reply_ok :: bool
  reply_description :: "string option"
  reply_result :: "result option"

text \<open>
  The messaging platform answers a request as a function of the requests sent before it.
  A transport error is a reply with \<open>ok = false\<close>, which is what \<open>callTelegramApi\<close> turns
  it into.
\<close>

type_synonym gateway = "call list \<Rightarrow> call \<Rightarrow> reply"

text \<open>
  The state of one event: the metadata object, which the engine mutates in place, the
  key-value namespace when one is bound (\<open>getKvStore()\<close>), the metadata stored under the
  \<open>topics:\<close> keys, and the requests sent so far, oldest first.
\<close>

record world =
  w_metaData :: metadata
  w_kvStore :: "kvNamespace option"
  w_topicsKv :: "string \<Rightarrow> metadata option"
  w_posts :: "call list"

record message =
  msg_chat_id :: int
  msg_message_id :: int
  msg_reply_to :: "int option"

datatype error = AdminConflict | CreateFailed | TypeError

definition postToTelegramApi :: "gateway \<Rightarrow> world \<Rightarrow> call \<Rightarrow> reply \<times> world" where
  "postToTelegramApi g w c = (g (w_posts w) c, w\<lparr>w_posts := w_posts w @ [c]\<rparr>)"

text \<open>\<open>callTelegramApi\<close>: a failure of a method other than \<open>sendMessage\<close> is reported to the
  owner when \<open>options.ownerUid\<close> is given.\<close>

definition callTelegramApi :: "gateway \<Rightarrow> world \<Rightarrow> call \<Rightarrow> int option \<Rightarrow> reply \<times> world" where
  "callTelegramApi g w c ownerUid =
     (let (data, w1) = postToTelegramApi g w c
      in case ownerUid of
           None \<Rightarrow> (data, w1)
         | Some owner \<Rightarrow>
             if \<not> reply_ok data \<and> \<not> isSendMessage c
             then (data, snd (postToTelegramApi g w1 (SendNotice owner ApiFailure)))
             else (data, w1))"

definition isSupergroupAdmin :: "gateway \<Rightarrow> world \<Rightarrow> jsnum \<Rightarrow> int \<Rightarrow> bool \<times> world" where
  "isSupergroupAdmin g w supergroupId userId =
     (let (resp, w1) = callTelegramApi g w (GetChatMember supergroupId userId) None;
          status = Option.bind (reply_result resp) res_status
      in (status = Some ''creator'' \<or> status = Some ''administrator'', w1))"

text \<open>\<open>setMessageReaction\<close> with one emoji, as the delivery markers call it.\<close>

definition setMessageReaction :: "gateway \<Rightarrow> world \<Rightarrow> int \<Rightarrow> int \<Rightarrow> marker \<Rightarrow> world" where
  "setMessageReaction g w chatId messageId m =
     (let (resp, w1) = callTelegramApi g w (SetMessageReaction chatId messageId m) None
      in if reply_ok resp then w1
         else if includesStr (case reply_description resp of None \<Rightarrow> [] | Some t \<Rightarrow> t)
                   ''REACTIONS_TOO_MANY''
         then snd (callTelegramApi g w1 (SetMessageReaction chatId messageId m) None)
         else w1)"

definition notifyMessageSent :: "gateway \<Rightarrow> world \<Rightarrow> int \<Rightarrow> int \<Rightarrow> world" where
  "notifyMessageSent g w chatId messageId = setMessageReaction g w chatId messageId Sent"

definition notifyMessageFailed :: "gateway \<Rightarrow> world \<Rightarrow> int \<Rightarrow> int \<Rightarrow> world" where
  "notifyMessageFailed g w chatId messageId = setMessageReaction g w chatId messageId Failed"

section \<open>Persisting the metadata\<close>

definition getTopicMappingKey :: "jsnum \<Rightarrow> string" where
  "getTopicMappingKey groupId = ''topics:'' @ template groupId"

definition saveTopicMappingToKV :: "world \<Rightarrow> jsnum \<Rightarrow> world" where
  "saveTopicMappingToKV w groupId =
     w\<lparr>w_topicsKv := (w_topicsKv w)(getTopicMappingKey groupId \<mapsto> w_metaData w)\<rparr>"

text \<open>\<open>editMetadata\<close>: reading \<open>metaMessage.message_id\<close> of a missing message throws.\<close>

definition editMetadata ::
    "gateway \<Rightarrow> int \<Rightarrow> world \<Rightarrow> result option \<Rightarrow> string \<Rightarrow> (error + result option) \<times> world" where
  "editMetadata g ownerUid w metaMessage newText =
     (let safeText = take MAX_TEXT_LENGTH newText
      in case metaMessage of
           None \<Rightarrow> (Inl TypeError, w)
         | Some m \<Rightarrow>
             (let (resp, w1) =
                    callTelegramApi g w (EditMetadataText ownerUid (res_message_id m) safeText) None
              in if \<not> reply_ok resp then (Inr metaMessage, w1)
                 else (Inr (reply_result resp), w1)))"

text \<open>\<open>updateMapping\<close>: the key-value copy first, then the pinned text, which
  \<open>trimMetadataEntries\<close> computes while it trims the metadata object itself.\<close>

definition updateMapping ::
    "gateway \<Rightarrow> int \<Rightarrow> world \<Rightarrow> result option \<Rightarrow> (error + result option) \<times> world" where
  "updateMapping g ownerUid w metaMessage =
     (let w1 = (if w_kvStore w \<noteq> None \<and> truthyNum (superGroupChatId (w_metaData w))
                then saveTopicMappingToKV w (superGroupChatId (w_metaData w)) else w);
          trimmed = trimMetadataEntries (w_metaData w1);
          w2 = w1\<lparr>w_metaData := snd trimmed\<rparr>
      in editMetadata g ownerUid w2 metaMessage (fst trimmed))"

section \<open>The message-link list without a key-value namespace\<close>

text \<open>
  When no namespace is bound, the links live in the text of the message pinned in the
  group, one \<open>topicId-topicMessageId:pmMessageId\<close> per chunk.
\<close>

definition MAX_MESSAGE_MAPPING_LENGTH :: nat where
  "MAX_MESSAGE_MAPPING_LENGTH = 4096"

text \<open>The loop of \<open>parseMessageMappings\<close>; a missing piece of a chunk is the empty string.\<close>

fun parseMappingChunks :: "string list \<Rightarrow> link list" where
  "parseMappingChunks [] = []"
| "parseMappingChunks (chunk # rest) =
     (if chunk = [] then parseMappingChunks rest
      else
        (let halves = splitOn CHR '':'' chunk;
             topicMessageChunk = halves ! 0;
             pmMessageIdRaw = (if 1 < length halves then halves ! 1 else [])
         in if topicMessageChunk = [] \<or> pmMessageIdRaw = [] then parseMappingChunks rest
            else
              (let ids = splitOn CHR ''-'' topicMessageChunk;
                   topicIdRaw = ids ! 0;
                   topicMessageIdRaw = (if 1 < length ids then ids ! 1 else [])
               in case parseInt topicIdRaw of
                    None \<Rightarrow> parseMappingChunks rest
                  | Some t \<Rightarrow>
                      (case parseInt topicMessageIdRaw of
                         None \<Rightarrow> parseMappingChunks rest
                       | Some tm \<Rightarrow>
                           (case parseInt pmMessageIdRaw of
                              None \<Rightarrow> parseMappingChunks rest
                            | Some pm \<Rightarrow>
                                \<lparr>link_topicId = t, link_topicMessageId = tm,
                                  link_pmMessageId = pm\<rparr> # parseMappingChunks rest)))))"

definition parseMessageMappings :: "string \<Rightarrow> link list" where
  "parseMessageMappings text =
     (if text = [] then [] else parseMappingChunks (splitOn CHR '';'' text))"

text \<open>The loop of \<open>trimMappingText\<close>: the oldest chunk is shifted out while the text is too
  long and more than one chunk is left.\<close>

function trimMappingParts :: "string list \<Rightarrow> string" where
  "trimMappingParts chunks =
     (let joined = joinWith '';'' chunks in
      if MAX_MESSAGE_MAPPING_LENGTH < length joined \<and> 1 < length chunks
      then trimMappingParts (tl chunks) else joined)"
  by pat_completeness auto
termination
  by (relation "measure length") auto

declare trimMappingParts.simps [simp del]

definition trimMappingText :: "string \<Rightarrow> string" where
  "trimMappingText text = trimMappingParts (filter (\<lambda>chunk. chunk \<noteq> []) (splitOn CHR '';'' text))"

text \<open>\<open>loadMessageMappingText\<close> returns \<open>{ text, messageId }\<close> of the message pinned in the
  group.\<close>

definition loadMessageMappingText ::
    "gateway \<Rightarrow> world \<Rightarrow> jsnum \<Rightarrow> (string \<times> int option) \<times> world" where
  "loadMessageMappingText g w groupId =
     (let (resp, w1) = callTelegramApi g w (GetChat groupId) None;
          pinnedText = Option.bind (reply_result resp) res_pinned_text;
          pinnedId = Option.bind (reply_result resp) res_pinned_message_id
      in ((case pinnedText of None \<Rightarrow> [] | Some t \<Rightarrow> t,
           if truthy pinnedId then pinnedId else None), w1))"

text \<open>\<open>addMessageMapping\<close>; the error is the \<open>TypeError\<close> of reading \<open>message_id\<close> of a
  missing \<open>result\<close>.\<close>

definition addMessageMapping ::
    "gateway \<Rightarrow> world \<Rightarrow> jsnum \<Rightarrow> int \<Rightarrow> int \<Rightarrow> int \<Rightarrow> error option \<times> world" where
  "addMessageMapping g w groupId topicId topicMessageId pmMessageId =
     (case w_kvStore w of
        Some kv \<Rightarrow>
          (None, w\<lparr>w_kvStore :=
                     Some (addMessageMappingKV kv groupId topicId topicMessageId pmMessageId)\<rparr>)
      | None \<Rightarrow>
          (let entry = toString topicId @ ''-'' @ toString topicMessageId @ '':'' @
                       toString pmMessageId;
               (loaded, w1) = loadMessageMappingText g w groupId
           in if \<not> truthy (snd loaded) \<or> fst loaded = []
              then
                (let (sendResp, w2) = callTelegramApi g w1 (SendMappingText groupId entry) None
                 in if \<not> reply_ok sendResp then (None, w2)
                    else (case reply_result sendResp of
                            None \<Rightarrow> (Some TypeError, w2)
                          | Some r \<Rightarrow>
                              (None, snd (callTelegramApi g w2
                                            (PinChatMessage groupId (res_message_id r)) None))))
              else
                (let newText = trimMappingText (fst loaded @ '';'' @ entry)
                 in (None, snd (callTelegramApi g w1
                                  (EditMappingText groupId (the (snd loaded)) newText) None)))))"

definition findTopicMessageId ::
    "gateway \<Rightarrow> world \<Rightarrow> jsnum \<Rightarrow> int \<Rightarrow> (int option \<times> int option) \<times> world" where
  "findTopicMessageId g w groupId pmMessageId =
     (case w_kvStore w of
        Some kv \<Rightarrow> (findTopicMessageIdKV kv groupId pmMessageId, w)
      | None \<Rightarrow>
          (let (loaded, w1) = loadMessageMappingText g w groupId;
               entries = parseMessageMappings (fst loaded)
           in (scanByPm entries (length entries) pmMessageId, w1)))"

text \<open>\<open>cleanupTopicMessages\<close> does nothing without a namespace.\<close>

definition cleanupTopicMessages :: "world \<Rightarrow> jsnum \<Rightarrow> int \<Rightarrow> world" where
  "cleanupTopicMessages w groupId topicId =
     (case w_kvStore w of
        None \<Rightarrow> w
      | Some kv \<Rightarrow>
          w\<lparr>w_kvStore :=
               Some (saveMappingsToKV kv groupId
                       (filter (\<lambda>m. link_topicId m \<noteq> topicId) (loadMappingsFromKV kv groupId)))\<rparr>)"

section \<open>The relay from a user chat to its thread\<close>

text \<open>\<open>ensureTopic\<close> returns \<open>{ topicId, metaMessage }\<close> or throws.\<close>

definition ensureTopic ::
    "gateway \<Rightarrow> int \<Rightarrow> world \<Rightarrow> result option \<Rightarrow> int \<Rightarrow> (error + int \<times> result option) \<times> world" where
  "ensureTopic g ownerUid w metaMessage fromChatId =
     (let topicId = Map_get (fromChatToTopic (w_metaData w)) fromChatId
      in if truthy topicId then (Inr (the topicId, metaMessage), w)
         else
           (let (isAdmin, w1) =
                  isSupergroupAdmin g w (superGroupChatId (w_metaData w)) fromChatId
            in if isAdmin then (Inl AdminConflict, w1)
               else
                 (let (createResp, w2) =
                        callTelegramApi g w1 (CreateForumTopic (superGroupChatId (w_metaData w1)))
                          (Some ownerUid);
                      newTopicId = Option.bind (reply_result createResp) res_message_thread_id
                  in if \<not> reply_ok createResp \<or> \<not> truthy newTopicId
                     then (Inl CreateFailed,
                           snd (callTelegramApi g w2 (SendNotice ownerUid CreateTopicFailed)
                                  (Some ownerUid)))
                     else
                       (let w3 = w2\<lparr>w_metaData :=
                                      upsertMapping (w_metaData w2) (the newTopicId) fromChatId None\<rparr>
                        in case updateMapping g ownerUid w3 metaMessage of
                             (Inl e, w4) \<Rightarrow> (Inl e, w4)
                           | (Inr updated, w4) \<Rightarrow> (Inr (the newTopicId, updated), w4)))))"

text \<open>The two descriptions that \<open>forwardPrivateToTopic\<close> reads as "the thread is gone".\<close>

definition threadInvalid :: "string option \<Rightarrow> bool" where
  "threadInvalid description =
     (case description of
        None \<Rightarrow> False
      | Some t \<Rightarrow> includesStr t ''message thread not found'' \<or> includesStr t ''TOPIC_ID_INVALID'')"

text \<open>The \<open>catch\<close> block of \<open>forwardPrivateToTopic\<close>.\<close>

definition relayFailed :: "gateway \<Rightarrow> int \<Rightarrow> world \<Rightarrow> message \<Rightarrow> world" where
  "relayFailed g ownerUid w message =
     notifyMessageFailed g
       (snd (callTelegramApi g w (SendNotice ownerUid ForwardFailed) (Some ownerUid)))
       (msg_chat_id message) (msg_message_id message)"

text \<open>
  \<open>forwardPrivateToTopic\<close>. The function calls itself after a recovery, with nothing that
  counts the calls; the first argument bounds their number, and \<open>None\<close> is a run that
  needs more calls than that.
\<close>

fun forwardPrivateToTopic ::
    "nat \<Rightarrow> gateway \<Rightarrow> int \<Rightarrow> world \<Rightarrow> result option \<Rightarrow> message \<Rightarrow> world option" where
  "forwardPrivateToTopic 0 g ownerUid w metaMessage message = None"
| "forwardPrivateToTopic (Suc fuel) g ownerUid w metaMessage message =
     (let fromChatId = msg_chat_id message;
          existingTopicId = Map_get (fromChatToTopic (w_metaData w)) fromChatId
      in if truthy existingTopicId \<and> isTopicBanned (w_metaData w) (the existingTopicId)
         then Some (snd (callTelegramApi g w (SendNotice fromChatId BlockedNotice) (Some ownerUid)))
         else
           (case ensureTopic g ownerUid w metaMessage fromChatId of
              (Inl err, w1) \<Rightarrow> Some (relayFailed g ownerUid w1 message)
            | (Inr ensured, w1) \<Rightarrow>
                (let found = (case msg_reply_to message of
                                None \<Rightarrow> ((None, None), w1)
                              | Some r \<Rightarrow>
                                  findTopicMessageId g w1 (superGroupChatId (w_metaData w1)) r);
                     w2 = snd found;
                     targetTopicId = (if truthy (fst (fst found)) then the (fst (fst found))
                                      else fst ensured);
                     replyParameters = (if truthy (snd (fst found)) then snd (fst found)
                                        else None);
                     copied = callTelegramApi g w2
                                (CopyMessage (superGroupChatId (w_metaData w2)) fromChatId
                                   (msg_message_id message) targetTopicId replyParameters)
                                (Some ownerUid);
                     resp = fst copied;
                     w3 = snd copied
                 in if \<not> reply_ok resp
                    then
                      (if threadInvalid (reply_description resp)
                       then
                         (let w4 = w3\<lparr>w_metaData := removeMapping (w_metaData w3) targetTopicId\<rparr>;
                              w5 = cleanupTopicMessages w4 (superGroupChatId (w_metaData w4))
                                     targetTopicId
                          in case updateMapping g ownerUid w5 (snd ensured) of
                               (Inl err, w6) \<Rightarrow> Some (relayFailed g ownerUid w6 message)
                             | (Inr refreshed, w6) \<Rightarrow>
                                 forwardPrivateToTopic fuel g ownerUid w6 refreshed message)
                       else Some (notifyMessageFailed g w3 fromChatId (msg_message_id message)))
                    else
                      (let topicMessageId = Option.bind (reply_result resp) res_message_id;
                           added = (if truthy topicMessageId
                                    then addMessageMapping g w3 (superGroupChatId (w_metaData w3))
                                           targetTopicId (the topicMessageId)
                                           (msg_message_id message)
                                    else (None, w3))
                       in case fst added of
                            Some err \<Rightarrow> Some (relayFailed g ownerUid (snd added) message)
                          | None \<Rightarrow>
                              Some (notifyMessageSent g (snd added) fromChatId
                                      (msg_message_id message))))))"

declare forwardPrivateToTopic.simps [simp del]

section \<open>Predicates and sample structures for the properties\<close>

text \<open>The comment of a topic as \<open>stringifyMetadata\<close> writes it: empty when there is none.\<close>

definition encComment :: "(int \<times> string) list \<Rightarrow> int \<Rightarrow> string" where
  "encComment cs t = (case Map_get cs t of None \<Rightarrow> [] | Some c \<Rightarrow> stripDelims c)"

text \<open>
  The binding maps as relations: each maps exactly the pairs the other maps, and neither
  sends two keys to one value.
\<close>

definition bijectiveBinding :: "metadata \<Rightarrow> bool" where
  "bijectiveBinding d =
     ((\<forall>t u. Map_get (topicToFromChat d) t = Some u \<longleftrightarrow> Map_get (fromChatToTopic d) u = Some t) \<and>
      (\<forall>t1 t2 u. Map_get (topicToFromChat d) t1 = Some u \<and> Map_get (topicToFromChat d) t2 = Some u
                   \<longrightarrow> t1 = t2) \<and>
      (\<forall>u1 u2 t. Map_get (fromChatToTopic d) u1 = Some t \<and> Map_get (fromChatToTopic d) u2 = Some t
                   \<longrightarrow> u1 = u2))"

text \<open>
  The scenario of the specification: group \<open>-100123\<close>, thread \<open>10\<close> bound to user chat
  \<open>555\<close>; and the same group with a second binding, thread \<open>10\<close> blocked and labelled.
\<close>

definition exampleMeta :: metadata where
  "exampleMeta =
     \<lparr>superGroupChatId = Num (- 100123), topicToFromChat = [(10, 555)],
      fromChatToTopic = [(555, 10)], bannedTopics = [], topicToComment = [],
      fromChatToComment = []\<rparr>"

definition exampleBlocked :: metadata where
  "exampleBlocked =
     \<lparr>superGroupChatId = Num (- 100123), topicToFromChat = [(10, 555), (11, 556)],
      fromChatToTopic = [(555, 10), (556, 11)], bannedTopics = [''10''],
      topicToComment = [(10, ''Ann'')], fromChatToComment = [(555, ''Ann'')]\<rparr>"

text \<open>
  The parts of one entry \<open>topicId:[b]fromChatId[:comment]\<close> of the record, as the
  decoder cuts it: the segment at a position (\<open>segments[i] || ''\<close>), the topic chunk, the
  blocked prefix, the user chat chunk after that prefix, and the label.
\<close>

definition segment :: "nat \<Rightarrow> string \<Rightarrow> string" where
  "segment i item =
     (let segments = splitOn CHR '':'' item in if i < length segments then segments ! i else [])"

definition topicChunk :: "string \<Rightarrow> string" where
  "topicChunk item = segment 0 item"

definition blockedEntry :: "string \<Rightarrow> bool" where
  "blockedEntry item = startsWith (segment 1 item) ''b''"

definition chatChunk :: "string \<Rightarrow> string" where
  "chatChunk item = (if blockedEntry item then drop 1 (segment 1 item) else segment 1 item)"

definition labelChunk :: "string \<Rightarrow> string" where
  "labelChunk item = segment 2 item"

text \<open>
  A numeric id, in the words of the specification: the text of an integer, which is an
  optional minus sign and decimal digits and nothing else; and the integer it writes. An
  entry is malformed when its topic id or its user chat id is not numeric.
\<close>

definition decimalDigit :: "char \<Rightarrow> bool" where
  "decimalDigit c = (c \<in> set ''0123456789'')"

definition numericId :: "string \<Rightarrow> bool" where
  "numericId s =
     (case s of
        [] \<Rightarrow> False
      | c # r \<Rightarrow> if c = CHR ''-'' then r \<noteq> [] \<and> list_all decimalDigit r
                 else list_all decimalDigit (c # r))"

definition decimalValue :: "string \<Rightarrow> int" where
  "decimalValue s =
     (let unsigned = (\<lambda>ds. int (foldl (\<lambda>a c. 10 * a + (of_char c - 48)) 0 ds))
      in case s of
           [] \<Rightarrow> 0
         | c # r \<Rightarrow> if c = CHR ''-'' then - unsigned r else unsigned (c # r))"

definition malformedEntry :: "string \<Rightarrow> bool" where
  "malformedEntry item = (\<not> (numericId (topicChunk item) \<and> numericId (chatChunk item)))"

text \<open>
  A chunk with a leading integer: after white space and an optional sign it goes on with a
  decimal digit, whatever follows the digits.
\<close>

definition leadingInteger :: "string \<Rightarrow> bool" where
  "leadingInteger s =
     (case dropWhile isWhiteSpace s of
        [] \<Rightarrow> False
      | c # r \<Rightarrow> if c = CHR ''-'' \<or> c = CHR ''+''
                 then (case r of [] \<Rightarrow> False | d # rest \<Rightarrow> decimalDigit d)
                 else decimalDigit c)"

text \<open>
  What an entry denotes: a topic id, a user chat id, a blocked flag and a label, empty when
  there is none. \<open>entryOf\<close> is the reading of an entry by \<open>parseInt\<close>, and \<open>decodedEntries\<close>
  are the readings of the entries that have one, in the order of the record.
\<close>

record entry =
  e_topic :: int
  e_chat :: int
  e_blocked :: bool
  e_label :: string

definition entryOf :: "string \<Rightarrow> entry option" where
  "entryOf item =
     (case parseInt (topicChunk item) of
        None \<Rightarrow> None
      | Some t \<Rightarrow>
          (case parseInt (chatChunk item) of
             None \<Rightarrow> None
           | Some u \<Rightarrow>
               Some \<lparr>e_topic = t, e_chat = u, e_blocked = blockedEntry item,
                      e_label = labelChunk item\<rparr>))"

definition decodedEntries :: "string list \<Rightarrow> entry list" where
  "decodedEntries pairs = List.map_filter entryOf pairs"

text \<open>The body of the decoder's loop on an entry that has a reading.\<close>

definition applyEntry :: "metadata \<Rightarrow> entry \<Rightarrow> metadata" where
  "applyEntry d e =
     (let d1 = d\<lparr>topicToFromChat := Map_set (topicToFromChat d) (e_topic e) (e_chat e),
                 fromChatToTopic := Map_set (fromChatToTopic d) (e_chat e) (e_topic e)\<rparr>;
          d2 = (if e_blocked e
                then d1\<lparr>bannedTopics := bannedTopics d1 @ [toString (e_topic e)]\<rparr> else d1)
      in if e_label e \<noteq> []
         then d2\<lparr>topicToComment := Map_set (topicToComment d2) (e_topic e) (e_label e),
                 fromChatToComment := Map_set (fromChatToComment d2) (e_chat e) (e_label e)\<rparr>
         else d2)"

text \<open>\<open>Number.isSafeInteger\<close>, and the records whose numbers are all safe integers.\<close>

definition safeInteger :: "int \<Rightarrow> bool" where
  "safeInteger n = (- (2 ^ 53 - 1) \<le> n \<and> n \<le> 2 ^ 53 - 1)"

definition safeIds :: "string \<Rightarrow> string list \<Rightarrow> bool" where
  "safeIds groupIdRaw pairs =
     ((case parseInt groupIdRaw of None \<Rightarrow> True | Some n \<Rightarrow> safeInteger n) \<and>
      list_all (\<lambda>e. safeInteger (e_topic e) \<and> safeInteger (e_chat e)) (decodedEntries pairs))"

text \<open>
  A valid structure: each of the four Maps has one entry per key; every blocked id is the
  text of a bound topic id; a label belongs to a bound topic or user chat; and the value
  of a binding in one map is a key of the other map.
\<close>

definition validStructure :: "metadata \<Rightarrow> bool" where
  "validStructure d =
     (distinct (map fst (topicToFromChat d)) \<and> distinct (map fst (fromChatToTopic d)) \<and>
      distinct (map fst (topicToComment d)) \<and> distinct (map fst (fromChatToComment d)) \<and>
      list_all (\<lambda>b. b \<in> set (map (\<lambda>e. toString (fst e)) (topicToFromChat d))) (bannedTopics d) \<and>
      list_all (\<lambda>t. Map_has (topicToFromChat d) t) (map fst (topicToComment d)) \<and>
      list_all (\<lambda>u. Map_has (fromChatToTopic d) u) (map fst (fromChatToComment d)) \<and>
      list_all (\<lambda>u. Map_has (fromChatToTopic d) u) (map snd (topicToFromChat d)) \<and>
      list_all (\<lambda>t. Map_has (topicToFromChat d) t) (map snd (fromChatToTopic d)))"

text \<open>The structure after its \<open>k\<close> oldest bindings were removed, oldest first.\<close>

fun evictOldest :: "nat \<Rightarrow> metadata \<Rightarrow> metadata" where
  "evictOldest 0 d = d"
| "evictOldest (Suc k) d =
     (case topicToFromChat d of
        [] \<Rightarrow> d
      | e # _ \<Rightarrow> evictOldest k (removeMapping d (fst e)))"

text \<open>
  Three bindings in insertion order, the oldest with a label of 4100 characters, so that
  the encoding is longer than 4096 characters; with a group id and without one.
\<close>

definition longMeta :: metadata where
  "longMeta =
     \<lparr>superGroupChatId = Num (- 100123), topicToFromChat = [(10, 555), (11, 556), (12, 557)],
      fromChatToTopic = [(555, 10), (556, 11), (557, 12)], bannedTopics = [],
      topicToComment = [(10, replicate 4100 CHR ''a'')],
      fromChatToComment = [(555, replicate 4100 CHR ''a'')]\<rparr>"

definition longMetaNoGroup :: metadata where
  "longMetaNoGroup = longMeta\<lparr>superGroupChatId := Null\<rparr>"

section \<open>The relay requests of a run\<close>

text \<open>The \<open>copyMessage\<close> requests sent so far.\<close>

definition copyCalls :: "world \<Rightarrow> call list" where
  "copyCalls w = filter isCopyMessage (w_posts w)"

section \<open>Sample gateways and states\<close>

definition okResult :: result where
  "okResult =
     \<lparr>res_message_id = Some 1, res_message_thread_id = None, res_status = None,
      res_pinned_text = None, res_pinned_message_id = None\<rparr>"

text \<open>
  A platform that rejects every \<open>copyMessage\<close> with "message thread not found", creates a
  thread with a new id for every \<open>createForumTopic\<close>, and accepts every other request.
\<close>

fun stubbornGateway :: gateway where
  "stubbornGateway history (CopyMessage chat fromChat messageId threadId replyTo) =
     \<lparr>reply_ok = False,
      reply_description = Some ''Bad Request: message thread not found'',
      reply_result = None\<rparr>"
| "stubbornGateway history (CreateForumTopic chat) =
     \<lparr>reply_ok = True, reply_description = None,
      reply_result = Some (okResult\<lparr>res_message_thread_id := Some (int (length history) + 1)\<rparr>)\<rparr>"
| "stubbornGateway history c =
     \<lparr>reply_ok = True, reply_description = None, reply_result = Some okResult\<rparr>"


text \<open>A platform that accepts every request and reports every member as an administrator.\<close>

definition adminGateway :: gateway where
  "adminGateway history c =
     \<lparr>reply_ok = True, reply_description = None,
      reply_result = Some (okResult\<lparr>res_status := Some ''administrator''\<rparr>)\<rparr>"

text \<open>The scenario with a bound namespace, and the same with thread \<open>10\<close> blocked.\<close>

definition exampleWorld :: world where
  "exampleWorld =
     \<lparr>w_metaData = exampleMeta, w_kvStore = Some exampleKv, w_topicsKv = Map.empty,
      w_posts = []\<rparr>"


definition exampleMessage :: message where
  "exampleMessage = \<lparr>msg_chat_id = 555, msg_message_id = 7, msg_reply_to = None\<rparr>"

definition strangerMessage :: message where
  "strangerMessage = \<lparr>msg_chat_id = 777, msg_message_id = 8, msg_reply_to = None\<rparr>"

section \<open>The steps of forwardPrivateToTopic\<close>

text \<open>
  Names for the steps of one call of \<open>forwardPrivateToTopic\<close>, in the order of the source:
  the blocked gate, the lookup of the replied-to message, the target thread, the
  \<open>copyMessage\<close> request, the recovery after a thread-invalid rejection, and the append of
  the message link. Lemma \<open>forward_Suc\<close> states the function in these terms.
\<close>

definition relayLookup :: "gateway \<Rightarrow> world \<Rightarrow> message \<Rightarrow> (int option \<times> int option) \<times> world" where
  "relayLookup g w1 m =
     (case msg_reply_to m of
        None \<Rightarrow> ((None, None), w1)
      | Some r \<Rightarrow> findTopicMessageId g w1 (superGroupChatId (w_metaData w1)) r)"

definition relayTarget :: "(int option \<times> int option) \<times> world \<Rightarrow> int \<Rightarrow> int" where
  "relayTarget found topicId = (if truthy (fst (fst found)) then the (fst (fst found)) else topicId)"

definition relayCopy :: "gateway \<Rightarrow> int \<Rightarrow> (int option \<times> int option) \<times> world \<Rightarrow> message \<Rightarrow> int
    \<Rightarrow> reply \<times> world" where
  "relayCopy g owner found m topicId =
     callTelegramApi g (snd found)
       (CopyMessage (superGroupChatId (w_metaData (snd found))) (msg_chat_id m) (msg_message_id m)
          (relayTarget found topicId)
          (if truthy (snd (fst found)) then snd (fst found) else None))
       (Some owner)"

definition relayRecover :: "gateway \<Rightarrow> int \<Rightarrow> world \<Rightarrow> int \<Rightarrow> result option
    \<Rightarrow> (error + result option) \<times> world" where
  "relayRecover g owner w3 target mm =
     updateMapping g owner
       (cleanupTopicMessages (w3\<lparr>w_metaData := removeMapping (w_metaData w3) target\<rparr>)
          (superGroupChatId (w_metaData (w3\<lparr>w_metaData := removeMapping (w_metaData w3) target\<rparr>)))
          target)
       mm"

definition relayAdd :: "gateway \<Rightarrow> reply \<times> world \<Rightarrow> message \<Rightarrow> int \<Rightarrow> error option \<times> world" where
  "relayAdd g copied m target =
     (if truthy (Option.bind (reply_result (fst copied)) res_message_id)
      then addMessageMapping g (snd copied) (superGroupChatId (w_metaData (snd copied))) target
             (the (Option.bind (reply_result (fst copied)) res_message_id)) (msg_message_id m)
      else (None, snd copied))"

definition relayBlocked :: "world \<Rightarrow> message \<Rightarrow> bool" where
  "relayBlocked w m =
     (truthy (Map_get (fromChatToTopic (w_metaData w)) (msg_chat_id m)) \<and>
      isTopicBanned (w_metaData w) (the (Map_get (fromChatToTopic (w_metaData w)) (msg_chat_id m))))"



text \<open>
  A deployment without a key-value namespace. The message pinned in the group holds one
  link, from the user-side message \<open>3\<close> to the message \<open>5\<close> of thread \<open>99\<close>; thread \<open>99\<close> was
  deleted, and the platform rejects a copy into it and accepts a copy into any other
  thread. The sender, bound to the live thread \<open>10\<close>, replies to message \<open>3\<close>.
\<close>

fun deadThreadGateway :: gateway where
  "deadThreadGateway history (CopyMessage chat fromChat messageId threadId replyTo) =
     (if threadId = 99
      then \<lparr>reply_ok = False,
            reply_description = Some ''Bad Request: message thread not found'',
            reply_result = None\<rparr>
      else \<lparr>reply_ok = True, reply_description = None,
            reply_result = Some (okResult\<lparr>res_message_id := Some 900\<rparr>)\<rparr>)"
| "deadThreadGateway history (GetChat chat) =
     \<lparr>reply_ok = True, reply_description = None,
      reply_result = Some (okResult\<lparr>res_pinned_text := Some ''99-5:3'',
                                     res_pinned_message_id := Some 50\<rparr>)\<rparr>"
| "deadThreadGateway history c =
     \<lparr>reply_ok = True, reply_description = None, reply_result = Some okResult\<rparr>"

definition pinnedWorld :: world where
  "pinnedWorld = exampleWorld\<lparr>w_kvStore := None\<rparr>"

definition replyMessage :: message where
  "replyMessage = \<lparr>msg_chat_id = 555, msg_message_id = 7, msg_reply_to = Some 3\<rparr>"

section \<open>Facts about the JavaScript primitives\<close>

lemma digitVal_digitChar: "d < 10 \<Longrightarrow> digitVal (digitChar d) = Some d"
proof -
  assume "d < 10"
  then have "d \<in> {0,1,2,3,4,5,6,7,8,9}" by auto
  then show ?thesis
    by (auto simp: digitVal_def digitChar_def)
qed

lemma digitVal_Some_iff: "digitVal c \<noteq> None \<longleftrightarrow> c \<in> set ''0123456789''"
  by (simp add: digitVal_def)

lemma digits_nonempty: "digits n \<noteq> []"
  by (subst digits.simps) simp

lemma digits_all_digit: "c \<in> set (digits n) \<Longrightarrow> digitVal c \<noteq> None"
proof (induction n arbitrary: c rule: digits.induct)
  case (1 n)
  show ?case
  proof (cases "n < 10")
    case True
    with "1.prems" have "c = digitChar n" by (subst (asm) digits.simps) simp
    with True show ?thesis by (simp add: digitVal_digitChar)
  next
    case False
    with "1.prems" have "c \<in> set (digits (n div 10)) \<or> c = digitChar (n mod 10)"
      by (subst (asm) digits.simps) auto
    then show ?thesis
    proof
      assume "c \<in> set (digits (n div 10))"
      with False "1.IH" show ?thesis by blast
    next
      assume "c = digitChar (n mod 10)"
      then show ?thesis by (simp add: digitVal_digitChar)
    qed
  qed
qed

lemma parseDigits_append:
  "\<forall>c \<in> set xs. digitVal c \<noteq> None \<Longrightarrow>
   parseDigits acc (xs @ ys) = parseDigits (parseDigits acc xs) ys"
  by (induction xs arbitrary: acc) (auto split: option.splits)

lemma parseDigits_digits: "parseDigits None (digits n) = Some n"
proof (induction n rule: digits.induct)
  case (1 n)
  show ?case
  proof (cases "n < 10")
    case True
    then show ?thesis by (subst digits.simps) (simp add: digitVal_digitChar)
  next
    case False
    have all: "\<forall>c \<in> set (digits (n div 10)). digitVal c \<noteq> None"
      using digits_all_digit by blast
    have "parseDigits None (digits n) =
          parseDigits (parseDigits None (digits (n div 10))) [digitChar (n mod 10)]"
      using False by (subst digits.simps) (simp add: parseDigits_append [OF all])
    also have "\<dots> = Some (10 * (n div 10) + n mod 10)"
      using False "1.IH" by (simp add: digitVal_digitChar)
    finally show ?thesis by simp
  qed
qed

lemma digit_not_white: "digitVal c \<noteq> None \<Longrightarrow> \<not> isWhiteSpace c"
  by (auto simp: digitVal_def isWhiteSpace_def split: if_splits)

lemma digit_not_sign: "digitVal c \<noteq> None \<Longrightarrow> c \<noteq> CHR ''-'' \<and> c \<noteq> CHR ''+''"
  by (auto simp: digitVal_def split: if_splits)

lemma parseInt_digits: "parseInt (digits n) = Some (int n)"
proof -
  obtain c r where cr: "digits n = c # r"
    using digits_nonempty [of n] by (cases "digits n") auto
  then have "c \<in> set (digits n)" by simp
  then have d: "digitVal c \<noteq> None" by (rule digits_all_digit)
  have "parseDigits None (c # r) = Some n"
    using parseDigits_digits [of n] cr by simp
  with d cr show ?thesis
    using digit_not_white [OF d] digit_not_sign [OF d]
    by (simp add: parseInt_def)
qed

lemma parseInt_toString: "parseInt (toString i) = Some i"
proof (cases "i < 0")
  case True
  have "\<not> isWhiteSpace CHR ''-''" by (simp add: isWhiteSpace_def)
  then have "parseInt (CHR ''-'' # digits (nat (- i))) = Some (- int (nat (- i)))"
    by (simp add: parseInt_def parseDigits_digits)
  with True show ?thesis by (simp add: toString_def)
next
  case False
  then show ?thesis by (simp add: toString_def parseInt_digits)
qed

lemma toString_inj: "toString a = toString b \<Longrightarrow> a = b"
  by (metis parseInt_toString option.inject)

lemma toString_chars: "c \<in> set (toString i) \<Longrightarrow> c = CHR ''-'' \<or> digitVal c \<noteq> None"
proof (cases "i < 0")
  case True
  assume "c \<in> set (toString i)"
  with True have "c = CHR ''-'' \<or> c \<in> set (digits (nat (- i)))" by (simp add: toString_def)
  then show ?thesis using digits_all_digit by blast
next
  case False
  assume "c \<in> set (toString i)"
  with False have "c \<in> set (digits (nat i))" by (simp add: toString_def)
  then show ?thesis using digits_all_digit by blast
qed

lemma toString_no_colon: "CHR '':'' \<notin> set (toString i)"
proof
  assume "CHR '':'' \<in> set (toString i)"
  from toString_chars [OF this] show False by (simp add: digitVal_def)
qed

lemma toString_no_semi: "CHR '';'' \<notin> set (toString i)"
proof
  assume "CHR '';'' \<in> set (toString i)"
  from toString_chars [OF this] show False by (simp add: digitVal_def)
qed

lemma toString_no_b: "CHR ''b'' \<notin> set (toString i)"
proof
  assume "CHR ''b'' \<in> set (toString i)"
  from toString_chars [OF this] show False by (simp add: digitVal_def)
qed

lemma toString_nonempty: "toString i \<noteq> []"
  by (simp add: toString_def digits_nonempty)

lemma toString_not_b: "\<not> startsWith (toString i) ''b''"
proof (cases "toString i")
  case Nil then show ?thesis using toString_nonempty by simp
next
  case (Cons c cs)
  then have "c \<in> set (toString i)" by simp
  then have "c \<noteq> CHR ''b''" using toString_no_b by metis
  with Cons show ?thesis by simp
qed

lemma digits_small: "n < 10 \<Longrightarrow> digits n = [digitChar n]"
  by (subst digits.simps) simp

lemma digits_big: "10 \<le> n \<Longrightarrow> digits n = digits (n div 10) @ [digitChar (n mod 10)]"
  by (subst digits.simps) simp

lemmas js_eval = toString_def digits_small digits_big digitChar_def digitVal_def parseInt_def
  isWhiteSpace_def Let_def truthy_def

lemma toString_examples:
  "toString 10 = ''10''" "toString 11 = ''11''" "toString 555 = ''555''" "toString 556 = ''556''"
  "toString (- 100123) = ''-100123''" "toString 0 = ''0''"
  by (simp_all add: js_eval)

lemma splitOn_nonempty: "splitOn sep s \<noteq> []"
  by (induction s) (auto split: list.splits)

lemma splitOn_no_sep: "sep \<notin> set x \<Longrightarrow> splitOn sep x = [x]"
  by (induction x) auto

lemma splitOn_append: "sep \<notin> set x \<Longrightarrow> splitOn sep (x @ sep # rest) = x # splitOn sep rest"
  by (induction x) (auto split: list.splits)

lemma splitOn_joinWith:
  "xs \<noteq> [] \<Longrightarrow> \<forall>x \<in> set xs. sep \<notin> set x \<Longrightarrow> splitOn sep (joinWith [sep] xs) = xs"
proof (induction xs)
  case Nil then show ?case by simp
next
  case (Cons x xs)
  show ?case
  proof (cases xs)
    case Nil
    with Cons.prems show ?thesis by (simp add: splitOn_no_sep)
  next
    case (Cons y ys)
    with Cons.prems Cons.IH show ?thesis by (simp add: splitOn_append)
  qed
qed

section \<open>Facts about the Map and the store operations\<close>

lemma Map_get_set: "Map_get (Map_set m k v) k' = (if k' = k then Some v else Map_get m k')"
  by (induction m) auto

lemma Map_get_delete: "Map_get (Map_delete m k) k' = (if k' = k then None else Map_get m k')"
  by (induction m) (auto simp: Map_delete_def)

lemma Map_get_Some_key: "Map_get m k = Some v \<Longrightarrow> k \<in> fst ` set m"
  by (induction m) (auto split: if_splits)

lemma mutualInverse_iff:
  "mutualInverse d \<longleftrightarrow>
     (\<forall>t u. Map_get (topicToFromChat d) t = Some u \<longleftrightarrow> Map_get (fromChatToTopic d) u = Some t)"
proof
  assume mi: "mutualInverse d"
  show "\<forall>t u. Map_get (topicToFromChat d) t = Some u \<longleftrightarrow> Map_get (fromChatToTopic d) u = Some t"
  proof (intro allI iffI)
    fix t u assume g: "Map_get (topicToFromChat d) t = Some u"
    then have "t \<in> fst ` set (topicToFromChat d)" by (rule Map_get_Some_key)
    with mi g show "Map_get (fromChatToTopic d) u = Some t"
      by (auto simp: mutualInverse_def list_all_iff)
  next
    fix t u assume g: "Map_get (fromChatToTopic d) u = Some t"
    then have "u \<in> fst ` set (fromChatToTopic d)" by (rule Map_get_Some_key)
    with mi g show "Map_get (topicToFromChat d) t = Some u"
      by (auto simp: mutualInverse_def list_all_iff)
  qed
next
  assume "\<forall>t u. Map_get (topicToFromChat d) t = Some u \<longleftrightarrow> Map_get (fromChatToTopic d) u = Some t"
  then show "mutualInverse d"
    by (auto simp: mutualInverse_def list_all_iff split: option.splits)
qed

lemma indexOf_ge: "indexOf xs k \<ge> - 1"
  by (induction xs) (auto simp: Let_def)

lemma indexOf_absent: "indexOf xs k = - 1 \<longleftrightarrow> k \<notin> set xs"
proof (induction xs)
  case Nil show ?case by simp
next
  case (Cons x xs)
  have "indexOf xs k \<ge> - 1" by (rule indexOf_ge)
  with Cons show ?case by (auto simp: Let_def)
qed

lemma indexOf_present: "0 \<le> indexOf xs k \<longleftrightarrow> k \<in> set xs"
  using indexOf_ge [of xs k] indexOf_absent [of xs k] by arith

lemma splice1_indexOf: "k \<in> set xs \<Longrightarrow> splice1 xs (nat (indexOf xs k)) = remove1 k xs"
proof (induction xs)
  case Nil then show ?case by simp
next
  case (Cons x xs)
  show ?case
  proof (cases "x = k")
    case True then show ?thesis by (simp add: splice1_def)
  next
    case False
    with Cons.prems have kin: "k \<in> set xs" by simp
    then have nn: "0 \<le> indexOf xs k" by (simp add: indexOf_present)
    then have ne: "indexOf xs k \<noteq> - 1" by arith
    have "nat (indexOf xs k + 1) = Suc (nat (indexOf xs k))" using nn by arith
    with False ne Cons.IH [OF kin] show ?thesis
      by (simp add: splice1_def Let_def)
  qed
qed


lemma markBan_maps:
  "topicToFromChat (markBan d t b) = topicToFromChat d"
  "fromChatToTopic (markBan d t b) = fromChatToTopic d"
  "topicToComment (markBan d t b) = topicToComment d"
  "fromChatToComment (markBan d t b) = fromChatToComment d"
  "superGroupChatId (markBan d t b) = superGroupChatId d"
  by (simp_all add: markBan_def Let_def)

lemma removeMapping_fields:
  "topicToFromChat (removeMapping d t) = Map_delete (topicToFromChat d) t"
  "topicToComment (removeMapping d t) = Map_delete (topicToComment d) t"
  "fromChatToTopic (removeMapping d t) =
     (if truthy (Map_get (topicToFromChat d) t)
      then Map_delete (fromChatToTopic d) (the (Map_get (topicToFromChat d) t))
      else fromChatToTopic d)"
  "fromChatToComment (removeMapping d t) =
     (if truthy (Map_get (topicToFromChat d) t)
      then Map_delete (fromChatToComment d) (the (Map_get (topicToFromChat d) t))
      else fromChatToComment d)"
  "bannedTopics (removeMapping d t) = remove1 (toString t) (bannedTopics d)"
  "superGroupChatId (removeMapping d t) = superGroupChatId d"
  by (auto simp: removeMapping_def Let_def indexOf_present splice1_indexOf remove1_idem)

lemma upsertMapping_fields:
  "topicToFromChat (upsertMapping d t u c) = Map_set (topicToFromChat d) t u"
  "fromChatToTopic (upsertMapping d t u c) = Map_set (fromChatToTopic d) u t"
  "bannedTopics (upsertMapping d t u c) = bannedTopics d"
  "superGroupChatId (upsertMapping d t u c) = superGroupChatId d"
  by (auto simp: upsertMapping_def Let_def split: option.splits)

lemma remove1_once: "count_list xs k \<le> 1 \<Longrightarrow> k \<notin> set (remove1 k xs)"
  by (induction xs) (auto simp: count_list_0_iff split: if_splits)

section \<open>Facts about the codec\<close>

lemma stripDelims_no_delim:
  "CHR '':'' \<notin> set (stripDelims c)" "CHR '';'' \<notin> set (stripDelims c)"
  by (simp_all add: stripDelims_def)

lemma encComment_no_delim:
  "CHR '':'' \<notin> set (encComment cs t)" "CHR '';'' \<notin> set (encComment cs t)"
  by (simp_all add: encComment_def stripDelims_no_delim split: option.splits)

lemma encodeItem_eq:
  "encodeItem bs cs (t, u) =
     toString t @ CHR '':'' #
       ((if toString t \<in> set bs then ''b'' else []) @ toString u) @
       (if encComment cs t \<noteq> [] then CHR '':'' # encComment cs t else [])"
  by (simp add: encodeItem_def encComment_def Let_def)

lemma encodeItem_no_semi: "CHR '';'' \<notin> set (encodeItem bs cs e)"
  by (cases e) (simp add: encodeItem_eq toString_no_semi encComment_no_delim)

lemma encodeItem_nonempty: "encodeItem bs cs e \<noteq> []"
  by (cases e) (simp add: encodeItem_eq toString_nonempty)

lemma splitOn_encodeItem:
  "splitOn CHR '':'' (encodeItem bs cs (t, u)) =
     toString t # ((if toString t \<in> set bs then ''b'' else []) @ toString u) #
       (if encComment cs t \<noteq> [] then [encComment cs t] else [])"
proof -
  let ?uc = "(if toString t \<in> set bs then ''b'' else []) @ toString u"
  have uc: "CHR '':'' \<notin> set ?uc" by (simp add: toString_no_colon)
  show ?thesis
  proof (cases "encComment cs t = []")
    case True
    then show ?thesis
      using uc by (simp add: encodeItem_eq splitOn_append toString_no_colon splitOn_no_sep)
  next
    case False
    have "splitOn CHR '':'' (?uc @ CHR '':'' # encComment cs t) = [?uc, encComment cs t]"
      using uc by (simp only: splitOn_append splitOn_no_sep encComment_no_delim not_False_eq_True)
    then show ?thesis
      using False by (simp add: encodeItem_eq splitOn_append toString_no_colon)
  qed
qed

lemma parseInt_userChunk:
  "parseInt (if startsWith ((if b then ''b'' else []) @ toString u) ''b''
             then drop 1 ((if b then ''b'' else []) @ toString u)
             else (if b then ''b'' else []) @ toString u) = Some u"
  "startsWith ((if b then ''b'' else []) @ toString u) ''b'' = b"
  by (auto simp: parseInt_toString toString_not_b)

lemma parsePairs_step:
  "parsePairs (encodeItem bs cs (t, u) # rest) d =
     parsePairs rest
       (let d1 = d\<lparr>topicToFromChat := Map_set (topicToFromChat d) t u,
                     fromChatToTopic := Map_set (fromChatToTopic d) u t\<rparr>;
            d2 = (if toString t \<in> set bs
                  then d1\<lparr>bannedTopics := bannedTopics d1 @ [toString t]\<rparr> else d1)
        in (if encComment cs t \<noteq> []
            then d2\<lparr>topicToComment := Map_set (topicToComment d2) t (encComment cs t),
                    fromChatToComment := Map_set (fromChatToComment d2) u (encComment cs t)\<rparr>
            else d2))"
  by (simp add: splitOn_encodeItem parseInt_toString Let_def toString_not_b)

lemma parsePairs_topicToFromChat:
  "topicToFromChat (parsePairs (map (encodeItem bs cs) m) d) =
     foldl (\<lambda>acc e. Map_set acc (fst e) (snd e)) (topicToFromChat d) m"
proof (induction m arbitrary: d)
  case Nil show ?case by simp
next
  case (Cons e m)
  obtain t u where e: "e = (t, u)" by (cases e)
  show ?case
    unfolding e list.map parsePairs_step Cons.IH
    by (simp add: Let_def)
qed

lemma parsePairs_bannedTopics:
  "bannedTopics (parsePairs (map (encodeItem bs cs) m) d) =
     bannedTopics d @ map (\<lambda>e. toString (fst e)) (filter (\<lambda>e. toString (fst e) \<in> set bs) m)"
proof (induction m arbitrary: d)
  case Nil show ?case by simp
next
  case (Cons e m)
  obtain t u where e: "e = (t, u)" by (cases e)
  show ?case
    unfolding e list.map parsePairs_step Cons.IH
    by (simp add: Let_def)
qed

lemma Map_set_fresh: "k \<notin> fst ` set m \<Longrightarrow> Map_set m k v = m @ [(k, v)]"
  by (induction m) auto

lemma foldl_Map_set_distinct:
  "distinct (map fst (m0 @ m)) \<Longrightarrow>
   foldl (\<lambda>acc e. Map_set acc (fst e) (snd e)) m0 m = m0 @ m"
proof (induction m arbitrary: m0)
  case Nil show ?case by simp
next
  case (Cons e m)
  from Cons.prems have fresh: "fst e \<notin> fst ` set m0" by auto
  from Cons.prems have d: "distinct (map fst ((m0 @ [e]) @ m))" by auto
  have "Map_set m0 (fst e) (snd e) = m0 @ [e]" using Map_set_fresh [OF fresh] by simp
  with Cons.IH [OF d] show ?case by simp
qed

lemma joinElem_props:
  "g \<noteq> Null \<Longrightarrow> joinElem g \<noteq> []" "CHR '';'' \<notin> set (joinElem g)"
  by (cases g; simp add: joinElem_def toString_nonempty toString_no_semi)+

lemma joinWith_nonempty: "x \<noteq> [] \<Longrightarrow> joinWith sep (x # xs) \<noteq> []"
  by (cases xs) auto

lemma chunks_of_stringify:
  assumes "g \<noteq> Null"
  shows "filter (\<lambda>chunk. chunk \<noteq> []) (splitOn CHR '';'' (stringifyMetadata g m bs cs)) =
         joinElem g # map (encodeItem bs cs) m"
proof -
  let ?xs = "joinElem g # map (encodeItem bs cs) m"
  have nosemi: "\<forall>x \<in> set ?xs. CHR '';'' \<notin> set x"
    by (auto simp: joinElem_props encodeItem_no_semi)
  have "splitOn CHR '';'' (joinWith [CHR '';''] ?xs) = ?xs"
    by (rule splitOn_joinWith [OF _ nosemi]) simp
  moreover have "filter (\<lambda>chunk. chunk \<noteq> []) ?xs = ?xs"
    using assms by (auto simp: joinElem_props encodeItem_nonempty filter_id_conv)
  ultimately show ?thesis by (simp add: stringifyMetadata_def)
qed

lemma parse_stringify:
  assumes "g \<noteq> Null"
  shows "parseMetadataText (Some (stringifyMetadata g m bs cs)) =
         parsePairs (map (encodeItem bs cs) m)
           (emptyMetadata\<lparr>superGroupChatId :=
              (case parseInt (joinElem g) of None \<Rightarrow> NaN | Some n \<Rightarrow> Num n)\<rparr>)"
proof -
  have ne: "stringifyMetadata g m bs cs \<noteq> []"
    unfolding stringifyMetadata_def using assms by (intro joinWith_nonempty) (simp add: joinElem_props)
  show ?thesis
    using ne by (simp add: parseMetadataText_def chunks_of_stringify [OF assms])
qed

lemma roundtrip_bindings:
  assumes "g \<noteq> Null" "distinct (map fst m)"
  shows "topicToFromChat (parseMetadataText (Some (stringifyMetadata g m bs cs))) = m"
  using foldl_Map_set_distinct [of "[]" m] assms(2)
  by (simp add: parse_stringify [OF assms(1)] parsePairs_topicToFromChat emptyMetadata_def)

lemma roundtrip_banned:
  assumes "g \<noteq> Null"
  shows "bannedTopics (parseMetadataText (Some (stringifyMetadata g m bs cs))) =
         map (\<lambda>e. toString (fst e)) (filter (\<lambda>e. toString (fst e) \<in> set bs) m)"
  by (simp add: parse_stringify [OF assms] parsePairs_bannedTopics emptyMetadata_def)

lemma roundtrip_empty:
  "topicToFromChat (parseMetadataText (Some (stringifyMetadata Null [] bs cs))) = []"
  by (simp add: stringifyMetadata_def joinElem_def parseMetadataText_def emptyMetadata_def)

lemma roundtrip_flags:
  assumes "g \<noteq> Null" "(t, u) \<in> set m"
  shows "isTopicBanned (parseMetadataText (Some (stringifyMetadata g m bs cs))) t
         \<longleftrightarrow> toString t \<in> set bs"
  using assms(2) by (force simp: isTopicBanned_def roundtrip_banned [OF assms(1)])

section \<open>Facts about the decoder\<close>

lemma Map_set_keys: "fst ` set (Map_set m k v) = insert k (fst ` set m)"
proof (induction m)
  case Nil show ?case by simp
next
  case (Cons p m)
  obtain a b where p: "p = (a, b)" by (cases p)
  show ?case
  proof (cases "a = k")
    case True then show ?thesis by (simp add: p)
  next
    case False
    then have "fst ` set (Map_set (p # m) k v) = insert a (fst ` set (Map_set m k v))"
      by (simp add: p)
    also have "\<dots> = insert a (insert k (fst ` set m))" by (simp only: Cons.IH)
    finally show ?thesis by (auto simp: p)
  qed
qed

lemma Map_set_distinct: "distinct (map fst m) \<Longrightarrow> distinct (map fst (Map_set m k v))"
proof (induction m)
  case Nil show ?case by simp
next
  case (Cons p m)
  then show ?case using Map_set_keys [of m k v] by (cases p) (auto simp: image_iff)
qed

lemma Map_set_mem: "p \<in> set (Map_set m k v) \<Longrightarrow> p = (k, v) \<or> p \<in> set m"
  by (induction m) (auto split: if_splits)

lemma Map_set_values: "snd ` set (Map_set m k v) \<subseteq> insert v (snd ` set m)"
proof
  fix x assume "x \<in> snd ` set (Map_set m k v)"
  then obtain p where p: "p \<in> set (Map_set m k v)" "x = snd p" by auto
  from Map_set_mem [OF p(1)] p(2) show "x \<in> insert v (snd ` set m)" by auto
qed

lemma Map_has_iff: "Map_has m k \<longleftrightarrow> k \<in> fst ` set m"
  by (induction m) (auto simp: Map_has_def)

lemma Map_get_distinct: "distinct (map fst m) \<Longrightarrow> (k, v) \<in> set m \<Longrightarrow> Map_get m k = Some v"
  by (induction m) (auto simp: image_iff)

lemma Map_get_Some_mem: "Map_get m k = Some v \<Longrightarrow> (k, v) \<in> set m"
  by (induction m) (auto split: if_splits)

subsection \<open>Which chunks parseInt reads\<close>

lemma digitVal_decimalDigit: "digitVal c = None \<longleftrightarrow> \<not> decimalDigit c"
  by (simp add: digitVal_def decimalDigit_def)

lemma digitVal_of_digit: "decimalDigit c \<Longrightarrow> digitVal c = Some (of_char c - 48)"
  by (simp add: digitVal_def decimalDigit_def)

lemma parseDigits_Some: "parseDigits (Some a) cs \<noteq> None"
  by (induction cs arbitrary: a) (auto split: option.splits)

lemma parseDigits_None_iff:
  "parseDigits None cs = None \<longleftrightarrow> (case cs of [] \<Rightarrow> True | d # rest \<Rightarrow> \<not> decimalDigit d)"
  by (cases cs)
     (auto simp: digitVal_def decimalDigit_def parseDigits_Some split: option.splits if_splits)

lemma parseInt_NaN_iff: "parseInt s = None \<longleftrightarrow> \<not> leadingInteger s"
proof (cases "dropWhile isWhiteSpace s")
  case Nil
  show ?thesis by (simp only: parseInt_def leadingInteger_def Nil list.case) simp
next
  case (Cons c r)
  show ?thesis
  proof (cases "c = CHR ''-'' \<or> c = CHR ''+''")
    case True
    then show ?thesis
      by (simp only: parseInt_def leadingInteger_def Cons list.case)
         (auto simp: parseDigits_None_iff split: list.splits)
  next
    case False
    have "parseDigits None (c # r) = None \<longleftrightarrow> \<not> decimalDigit c"
      by (simp only: parseDigits_None_iff list.case)
    with False show ?thesis
      by (simp only: parseInt_def leadingInteger_def Cons list.case) simp
  qed
qed

lemma parseInt_examples:
  "parseInt ''10px'' = Some 10" "parseInt ''0x10'' = Some 0" "parseInt ''1e3'' = Some 1"
  "parseInt ''+7'' = Some 7" "parseInt '' -12'' = Some (- 12)"
  "parseInt (CHR 0xA0 # ''10'') = Some 10" "parseInt ''b5'' = None" "parseInt ''-'' = None"
  "parseInt [] = None"
  by (simp_all add: js_eval)

lemma parseDigits_all:
  "list_all decimalDigit ds \<Longrightarrow>
   parseDigits (Some a) ds = Some (foldl (\<lambda>a c. 10 * a + (of_char c - 48)) a ds)"
  by (induction ds arbitrary: a) (simp_all add: digitVal_of_digit)

lemma parseDigits_all_None:
  assumes "list_all decimalDigit ds" "ds \<noteq> []"
  shows "parseDigits None ds = Some (foldl (\<lambda>a c. 10 * a + (of_char c - 48)) 0 ds)"
proof -
  from assms obtain c r where ds: "ds = c # r" by (cases ds) auto
  with assms(1) have c: "decimalDigit c" and r: "list_all decimalDigit r" by simp_all
  show ?thesis
    by (simp add: ds digitVal_of_digit [OF c] parseDigits_all [OF r])
qed

lemma decimalDigit_plain:
  "decimalDigit c \<Longrightarrow> \<not> isWhiteSpace c \<and> c \<noteq> CHR ''-'' \<and> c \<noteq> CHR ''+''"
  by (auto simp: decimalDigit_def isWhiteSpace_def)

lemma parseInt_numericId: "numericId s \<Longrightarrow> parseInt s = Some (decimalValue s)"
proof (cases s)
  case Nil
  assume "numericId s" with Nil show ?thesis by (simp add: numericId_def)
next
  case (Cons c r)
  assume n: "numericId s"
  show ?thesis
  proof (cases "c = CHR ''-''")
    case True
    with n Cons have r: "list_all decimalDigit r" "r \<noteq> []" by (simp_all add: numericId_def)
    have w: "\<not> isWhiteSpace CHR ''-''" by (simp add: isWhiteSpace_def)
    show ?thesis
      using True Cons w parseDigits_all_None [OF r]
      by (simp add: parseInt_def decimalValue_def)
  next
    case False
    with n Cons have all: "list_all decimalDigit (c # r)" by (simp add: numericId_def)
    then have c: "decimalDigit c" by simp
    show ?thesis
      using False Cons decimalDigit_plain [OF c] parseDigits_all_None [OF all]
      by (simp add: parseInt_def decimalValue_def)
  qed
qed

lemma numericId_leadingInteger: "numericId s \<Longrightarrow> leadingInteger s"
  using parseInt_numericId [of s] parseInt_NaN_iff [of s] by auto

subsection \<open>The loop of the decoder\<close>

lemma entry_parts:
  "topicChunk item = splitOn CHR '':'' item ! 0"
  "segment (Suc 0) item =
     (if Suc 0 < length (splitOn CHR '':'' item) then splitOn CHR '':'' item ! Suc 0 else [])"
  "labelChunk item =
     (if 2 < length (splitOn CHR '':'' item) then splitOn CHR '':'' item ! 2 else [])"
  using splitOn_nonempty [of "CHR '':''" item]
  by (simp_all add: topicChunk_def labelChunk_def segment_def Let_def)

lemma entryOf_None_iff:
  "entryOf item = None \<longleftrightarrow>
     \<not> leadingInteger (topicChunk item) \<or> \<not> leadingInteger (chatChunk item)"
  using parseInt_NaN_iff [of "topicChunk item"] parseInt_NaN_iff [of "chatChunk item"]
  by (auto simp: entryOf_def split: option.splits)

lemma entryOf_numeric:
  assumes "numericId (topicChunk item)" "numericId (chatChunk item)"
  shows "entryOf item =
           Some \<lparr>e_topic = decimalValue (topicChunk item), e_chat = decimalValue (chatChunk item),
                  e_blocked = blockedEntry item, e_label = labelChunk item\<rparr>"
  by (simp add: entryOf_def parseInt_numericId [OF assms(1)] parseInt_numericId [OF assms(2)])

lemma parsePairs_skip: "entryOf item = None \<Longrightarrow> parsePairs (item # rest) d = parsePairs rest d"
  by (auto simp: entryOf_def chatChunk_def blockedEntry_def entry_parts Let_def
        split: option.splits if_splits)

lemma parsePairs_take:
  "entryOf item = Some e \<Longrightarrow> parsePairs (item # rest) d = parsePairs rest (applyEntry d e)"
  by (auto simp: entryOf_def chatChunk_def blockedEntry_def entry_parts applyEntry_def Let_def
        split: option.splits if_splits)

lemma parsePairs_foldl: "parsePairs ps d = foldl applyEntry d (decodedEntries ps)"
proof (induction ps arbitrary: d)
  case Nil show ?case by (simp add: decodedEntries_def List.map_filter_simps)
next
  case (Cons item ps)
  show ?case
  proof (cases "entryOf item")
    case None
    with Cons.IH [of d] show ?thesis
      by (simp del: parsePairs.simps
            add: parsePairs_skip decodedEntries_def List.map_filter_simps)
  next
    case (Some e)
    with Cons.IH [of "applyEntry d e"] show ?thesis
      by (simp del: parsePairs.simps
            add: parsePairs_take decodedEntries_def List.map_filter_simps)
  qed
qed

lemma decodedEntries_append:
  "decodedEntries (xs @ ys) = decodedEntries xs @ decodedEntries ys"
  by (simp add: decodedEntries_def List.map_filter_def)

lemma decodedEntries_skip: "entryOf item = None \<Longrightarrow> decodedEntries (item # ys) = decodedEntries ys"
  by (simp add: decodedEntries_def List.map_filter_simps)

lemma applyEntry_fields:
  "superGroupChatId (applyEntry d e) = superGroupChatId d"
  "topicToFromChat (applyEntry d e) = Map_set (topicToFromChat d) (e_topic e) (e_chat e)"
  "fromChatToTopic (applyEntry d e) = Map_set (fromChatToTopic d) (e_chat e) (e_topic e)"
  "bannedTopics (applyEntry d e) =
     bannedTopics d @ (if e_blocked e then [toString (e_topic e)] else [])"
  "topicToComment (applyEntry d e) =
     (if e_label e \<noteq> [] then Map_set (topicToComment d) (e_topic e) (e_label e)
      else topicToComment d)"
  "fromChatToComment (applyEntry d e) =
     (if e_label e \<noteq> [] then Map_set (fromChatToComment d) (e_chat e) (e_label e)
      else fromChatToComment d)"
  by (simp_all add: applyEntry_def Let_def)

lemma foldl_applyEntry_fields:
  "superGroupChatId (foldl applyEntry d es) = superGroupChatId d"
  "topicToFromChat (foldl applyEntry d es) =
     foldl (\<lambda>m e. Map_set m (e_topic e) (e_chat e)) (topicToFromChat d) es"
  "fromChatToTopic (foldl applyEntry d es) =
     foldl (\<lambda>m e. Map_set m (e_chat e) (e_topic e)) (fromChatToTopic d) es"
  "bannedTopics (foldl applyEntry d es) =
     bannedTopics d @ map (\<lambda>e. toString (e_topic e)) (filter e_blocked es)"
  "topicToComment (foldl applyEntry d es) =
     foldl (\<lambda>m e. Map_set m (e_topic e) (e_label e)) (topicToComment d)
       (filter (\<lambda>e. e_label e \<noteq> []) es)"
  "fromChatToComment (foldl applyEntry d es) =
     foldl (\<lambda>m e. Map_set m (e_chat e) (e_label e)) (fromChatToComment d)
       (filter (\<lambda>e. e_label e \<noteq> []) es)"
  by (induction es arbitrary: d; simp add: applyEntry_fields)+

subsection \<open>Every decoded structure is valid\<close>

lemma validStructure_iff:
  "validStructure d \<longleftrightarrow>
     distinct (map fst (topicToFromChat d)) \<and> distinct (map fst (fromChatToTopic d)) \<and>
     distinct (map fst (topicToComment d)) \<and> distinct (map fst (fromChatToComment d)) \<and>
     set (bannedTopics d) \<subseteq> toString ` fst ` set (topicToFromChat d) \<and>
     fst ` set (topicToComment d) \<subseteq> fst ` set (topicToFromChat d) \<and>
     fst ` set (fromChatToComment d) \<subseteq> fst ` set (fromChatToTopic d) \<and>
     snd ` set (topicToFromChat d) \<subseteq> fst ` set (fromChatToTopic d) \<and>
     snd ` set (fromChatToTopic d) \<subseteq> fst ` set (topicToFromChat d)"
  by (simp only: validStructure_def list_all_iff Map_has_iff set_map subset_eq image_image)

lemma applyEntry_valid:
  assumes v: "validStructure d"
  shows "validStructure (applyEntry d e)"
proof -
  let ?d = "applyEntry d e"
  note f = applyEntry_fields [of d e]
  from v have a:
    "distinct (map fst (topicToFromChat d))" "distinct (map fst (fromChatToTopic d))"
    "distinct (map fst (topicToComment d))" "distinct (map fst (fromChatToComment d))"
    "set (bannedTopics d) \<subseteq> toString ` fst ` set (topicToFromChat d)"
    "fst ` set (topicToComment d) \<subseteq> fst ` set (topicToFromChat d)"
    "fst ` set (fromChatToComment d) \<subseteq> fst ` set (fromChatToTopic d)"
    "snd ` set (topicToFromChat d) \<subseteq> fst ` set (fromChatToTopic d)"
    "snd ` set (fromChatToTopic d) \<subseteq> fst ` set (topicToFromChat d)"
    by (simp_all add: validStructure_iff)
  have kt: "fst ` set (topicToFromChat ?d) = insert (e_topic e) (fst ` set (topicToFromChat d))"
    by (simp add: f Map_set_keys)
  have kc: "fst ` set (fromChatToTopic ?d) = insert (e_chat e) (fst ` set (fromChatToTopic d))"
    by (simp add: f Map_set_keys)
  have 1: "distinct (map fst (topicToFromChat ?d))" using a(1) by (simp add: f Map_set_distinct)
  have 2: "distinct (map fst (fromChatToTopic ?d))" using a(2) by (simp add: f Map_set_distinct)
  have 3: "distinct (map fst (topicToComment ?d))" using a(3) by (simp add: f Map_set_distinct)
  have 4: "distinct (map fst (fromChatToComment ?d))" using a(4) by (simp add: f Map_set_distinct)
  have 5: "set (bannedTopics ?d) \<subseteq> toString ` fst ` set (topicToFromChat ?d)"
    using a(5) by (auto simp: f(4) kt)
  have 6: "fst ` set (topicToComment ?d) \<subseteq> fst ` set (topicToFromChat ?d)"
    using a(6) by (auto simp: f(5) kt Map_set_keys)
  have 7: "fst ` set (fromChatToComment ?d) \<subseteq> fst ` set (fromChatToTopic ?d)"
    using a(7) by (auto simp: f(6) kc Map_set_keys)
  have 8: "snd ` set (topicToFromChat ?d) \<subseteq> fst ` set (fromChatToTopic ?d)"
    using a(8) Map_set_values [of "topicToFromChat d" "e_topic e" "e_chat e"]
    unfolding kc f(2) by blast
  have 9: "snd ` set (fromChatToTopic ?d) \<subseteq> fst ` set (topicToFromChat ?d)"
    using a(9) Map_set_values [of "fromChatToTopic d" "e_chat e" "e_topic e"]
    unfolding kt f(3) by blast
  from 1 2 3 4 5 6 7 8 9 show ?thesis by (simp only: validStructure_iff)
qed

lemma foldl_applyEntry_valid: "validStructure d \<Longrightarrow> validStructure (foldl applyEntry d es)"
  by (induction es arbitrary: d) (simp_all add: applyEntry_valid)

lemma emptyMetadata_valid: "validStructure (emptyMetadata\<lparr>superGroupChatId := g\<rparr>)"
  by (simp add: validStructure_def emptyMetadata_def)

lemma parseMetadataText_valid: "validStructure (parseMetadataText text)"
proof -
  have e: "validStructure emptyMetadata"
    using emptyMetadata_valid [of Null] by (simp add: emptyMetadata_def)
  show ?thesis
  proof (cases "text")
    case None
    with e show ?thesis by (simp add: parseMetadataText_def)
  next
    case (Some s)
    show ?thesis
    proof (cases "s = []")
      case True
      with Some e show ?thesis by (simp add: parseMetadataText_def)
    next
      case False
      show ?thesis
      proof (cases "filter (\<lambda>chunk. chunk \<noteq> []) (splitOn CHR '';'' s)")
        case Nil
        with Some False e show ?thesis by (simp add: parseMetadataText_def)
      next
        case (Cons g pairs)
        have "parseMetadataText text =
                foldl applyEntry (emptyMetadata\<lparr>superGroupChatId :=
                   (case parseInt g of None \<Rightarrow> NaN | Some n \<Rightarrow> Num n)\<rparr>) (decodedEntries pairs)"
          using Some False Cons by (simp add: parseMetadataText_def parsePairs_foldl)
        then show ?thesis
          by (simp only: foldl_applyEntry_valid [OF emptyMetadata_valid])
      qed
    qed
  qed
qed

subsection \<open>The record as a list of chunks\<close>

lemma splitOn_chunks_no_sep: "c \<in> set (splitOn sep s) \<Longrightarrow> sep \<notin> set c"
proof (induction s arbitrary: c)
  case Nil then show ?case by simp
next
  case (Cons a s)
  show ?case
  proof (cases "a = sep")
    case True with Cons show ?thesis by auto
  next
    case False
    obtain x xs where sp: "splitOn sep s = x # xs"
      using splitOn_nonempty [of sep s] by (cases "splitOn sep s") auto
    with False Cons.prems have "c = a # x \<or> c \<in> set xs" by simp
    then show ?thesis
    proof
      assume "c = a # x"
      moreover have "sep \<notin> set x" using Cons.IH [of x] sp by simp
      ultimately show ?thesis using False by simp
    next
      assume "c \<in> set xs"
      then show ?thesis using Cons.IH [of c] sp by simp
    qed
  qed
qed

lemma parse_chunks:
  assumes "filter (\<lambda>c. c \<noteq> []) (splitOn CHR '';'' s) = g # pairs"
  shows "parseMetadataText (Some s) =
         foldl applyEntry (emptyMetadata\<lparr>superGroupChatId :=
            (case parseInt g of None \<Rightarrow> NaN | Some n \<Rightarrow> Num n)\<rparr>) (decodedEntries pairs)"
proof -
  have "s \<noteq> []" using assms by auto
  with assms show ?thesis by (simp add: parseMetadataText_def parsePairs_foldl)
qed

lemma chunks_of_joinWith:
  assumes "xs \<noteq> []" "\<forall>x \<in> set xs. x \<noteq> [] \<and> CHR '';'' \<notin> set x"
  shows "filter (\<lambda>c. c \<noteq> []) (splitOn CHR '';'' (joinWith '';'' xs)) = xs"
proof -
  have "splitOn CHR '';'' (joinWith [CHR '';''] xs) = xs"
    using assms by (intro splitOn_joinWith) auto
  with assms(2) show ?thesis by (simp add: filter_id_conv)
qed

lemma skip_entry:
  assumes ch: "filter (\<lambda>c. c \<noteq> []) (splitOn CHR '';'' s) = g # pre @ item # post"
      and no: "entryOf item = None"
  shows "parseMetadataText (Some s) = parseMetadataText (Some (joinWith '';'' (g # pre @ post)))"
proof -
  have all: "\<forall>x \<in> set (g # pre @ item # post). x \<noteq> [] \<and> CHR '';'' \<notin> set x"
  proof
    fix x assume "x \<in> set (g # pre @ item # post)"
    then have "x \<in> set (filter (\<lambda>c. c \<noteq> []) (splitOn CHR '';'' s))" by (simp only: ch)
    then show "x \<noteq> [] \<and> CHR '';'' \<notin> set x"
      using splitOn_chunks_no_sep [of x "CHR '';''" s] by simp
  qed
  then have sub: "\<forall>x \<in> set (g # pre @ post). x \<noteq> [] \<and> CHR '';'' \<notin> set x" by auto
  have "filter (\<lambda>c. c \<noteq> []) (splitOn CHR '';'' (joinWith '';'' (g # pre @ post))) = g # pre @ post"
    by (rule chunks_of_joinWith [OF _ sub]) simp
  note r = parse_chunks [OF this]
  have "decodedEntries (pre @ item # post) = decodedEntries (pre @ post)"
    using no by (simp only: decodedEntries_append decodedEntries_skip)
  with parse_chunks [OF ch] r show ?thesis by simp
qed

subsection \<open>The decoded structure, field by field\<close>

lemma decoded_fields:
  assumes ch: "filter (\<lambda>c. c \<noteq> []) (splitOn CHR '';'' s) = g # pairs"
  shows "parseMetadataText (Some s) =
     \<lparr>superGroupChatId = (case parseInt g of None \<Rightarrow> NaN | Some n \<Rightarrow> Num n),
      topicToFromChat =
        foldl (\<lambda>m e. Map_set m (e_topic e) (e_chat e)) [] (decodedEntries pairs),
      fromChatToTopic =
        foldl (\<lambda>m e. Map_set m (e_chat e) (e_topic e)) [] (decodedEntries pairs),
      bannedTopics = map (\<lambda>e. toString (e_topic e)) (filter e_blocked (decodedEntries pairs)),
      topicToComment =
        foldl (\<lambda>m e. Map_set m (e_topic e) (e_label e)) []
          (filter (\<lambda>e. e_label e \<noteq> []) (decodedEntries pairs)),
      fromChatToComment =
        foldl (\<lambda>m e. Map_set m (e_chat e) (e_label e)) []
          (filter (\<lambda>e. e_label e \<noteq> []) (decodedEntries pairs))\<rparr>"
  by (rule metadata.equality)
     (simp_all add: parse_chunks [OF ch] foldl_applyEntry_fields emptyMetadata_def)

lemma foldl_Map_set_entries:
  assumes "distinct (map k es)"
  shows "foldl (\<lambda>m e. Map_set m (k e) (v e)) [] es = map (\<lambda>e. (k e, v e)) es"
proof -
  have "foldl (\<lambda>m e. Map_set m (k e) (v e)) [] es =
        foldl (\<lambda>acc p. Map_set acc (fst p) (snd p)) [] (map (\<lambda>e. (k e, v e)) es)"
    by (simp add: foldl_map)
  also have "\<dots> = [] @ map (\<lambda>e. (k e, v e)) es"
    by (rule foldl_Map_set_distinct) (simp add: assms comp_def)
  finally show ?thesis by simp
qed

lemma decoded_inverse:
  assumes ch: "filter (\<lambda>c. c \<noteq> []) (splitOn CHR '';'' s) = g # pairs"
      and dt: "distinct (map e_topic (decodedEntries pairs))"
      and dc: "distinct (map e_chat (decodedEntries pairs))"
  shows "mutualInverse (parseMetadataText (Some s))"
proof -
  let ?es = "decodedEntries pairs"
  let ?d = "parseMetadataText (Some s)"
  have t: "topicToFromChat ?d = map (\<lambda>e. (e_topic e, e_chat e)) ?es"
    by (simp add: decoded_fields [OF ch] foldl_Map_set_entries [OF dt])
  have c: "fromChatToTopic ?d = map (\<lambda>e. (e_chat e, e_topic e)) ?es"
    by (simp add: decoded_fields [OF ch] foldl_Map_set_entries [OF dc])
  have kt: "distinct (map fst (topicToFromChat ?d))" using dt by (simp add: t comp_def)
  have kc: "distinct (map fst (fromChatToTopic ?d))" using dc by (simp add: c comp_def)
  show ?thesis
    unfolding mutualInverse_iff
  proof (intro allI iffI)
    fix x u assume "Map_get (topicToFromChat ?d) x = Some u"
    then have "(x, u) \<in> set (topicToFromChat ?d)" by (rule Map_get_Some_mem)
    then have "(u, x) \<in> set (fromChatToTopic ?d)" unfolding t c by auto
    with kc show "Map_get (fromChatToTopic ?d) u = Some x" by (rule Map_get_distinct)
  next
    fix x u assume "Map_get (fromChatToTopic ?d) u = Some x"
    then have "(u, x) \<in> set (fromChatToTopic ?d)" by (rule Map_get_Some_mem)
    then have "(x, u) \<in> set (topicToFromChat ?d)" unfolding t c by auto
    with kt show "Map_get (topicToFromChat ?d) x = Some u" by (rule Map_get_distinct)
  qed
qed

section \<open>Facts about trimming\<close>

lemma Map_delete_head:
  "distinct (map fst (e # m)) \<Longrightarrow> Map_delete (e # m) (fst e) = m"
proof -
  assume d: "distinct (map fst (e # m))"
  have "\<forall>p \<in> set m. fst p \<noteq> fst e"
  proof
    fix p assume "p \<in> set m"
    then have inm: "fst p \<in> fst ` set m" by (rule imageI)
    from d have ne: "fst e \<notin> fst ` set m" by simp
    show "fst p \<noteq> fst e"
    proof
      assume "fst p = fst e"
      with inm have "fst e \<in> fst ` set m" by simp
      with ne show False by (rule notE)
    qed
  qed
  then show ?thesis by (simp add: Map_delete_def filter_id_conv)
qed

lemma evictOldest_topics:
  "distinct (map fst (topicToFromChat d)) \<Longrightarrow>
   topicToFromChat (evictOldest k d) = drop k (topicToFromChat d)"
proof (induction k arbitrary: d)
  case 0 show ?case by simp
next
  case (Suc k)
  show ?case
  proof (cases "topicToFromChat d")
    case Nil then show ?thesis by simp
  next
    case (Cons e m)
    with Suc.prems have t: "topicToFromChat (removeMapping d (fst e)) = m"
      using Map_delete_head [of e m] by (simp add: removeMapping_fields)
    from Cons Suc.prems have "distinct (map fst m)" by simp
    with t Suc.IH [of "removeMapping d (fst e)"] Cons show ?thesis by simp
  qed
qed

lemma evictOldest_group: "superGroupChatId (evictOldest k d) = superGroupChatId d"
proof (induction k arbitrary: d)
  case 0 show ?case by simp
next
  case (Suc k)
  then show ?case by (cases "topicToFromChat d") (simp_all add: removeMapping_fields)
qed

lemma trimLoop_evicts:
  "distinct (map fst (topicToFromChat d)) \<Longrightarrow>
   \<exists>k \<le> length (topicToFromChat d).
      trimLoop d = (serialize (evictOldest k d), evictOldest k d) \<and>
      (\<forall>j < k. MAX_TEXT_LENGTH < length (serialize (evictOldest j d))) \<and>
      (length (serialize (evictOldest k d)) \<le> MAX_TEXT_LENGTH \<or> k = length (topicToFromChat d))"
proof (induction d rule: trimLoop.induct)
  case (1 d)
  show ?case
  proof (cases "MAX_TEXT_LENGTH < length (serialize d) \<and> 0 < length (topicToFromChat d)")
    case False
    then have "trimLoop d = (serialize d, d)" by (subst trimLoop.simps) (auto simp: Let_def)
    with False show ?thesis by (intro exI [of _ 0]) auto
  next
    case True
    then obtain e m where em: "topicToFromChat d = e # m" by (cases "topicToFromChat d") auto
    let ?d' = "removeMapping d (fst e)"
    have hd: "fst (hd (topicToFromChat d)) = fst e" by (simp add: em)
    have t': "topicToFromChat ?d' = m"
      using "1.prems" em Map_delete_head [of e m] by (simp add: removeMapping_fields)
    have dist': "distinct (map fst (topicToFromChat ?d'))"
      using "1.prems" em t' by simp
    from "1.IH" [OF refl True] dist' hd
    obtain k where k: "k \<le> length m"
      "trimLoop ?d' = (serialize (evictOldest k ?d'), evictOldest k ?d')"
      "\<forall>j < k. MAX_TEXT_LENGTH < length (serialize (evictOldest j ?d'))"
      "length (serialize (evictOldest k ?d')) \<le> MAX_TEXT_LENGTH \<or> k = length m"
      by (auto simp: t')
    have step: "trimLoop d = trimLoop ?d'"
      using True hd by (subst trimLoop.simps) (simp add: Let_def)
    have ev: "evictOldest (Suc j) d = evictOldest j ?d'" for j by (simp add: em)
    have all: "\<forall>j < Suc k. MAX_TEXT_LENGTH < length (serialize (evictOldest j d))"
    proof (intro allI impI)
      fix j assume "j < Suc k"
      show "MAX_TEXT_LENGTH < length (serialize (evictOldest j d))"
      proof (cases j)
        case 0 with True show ?thesis by simp
      next
        case (Suc j')
        with \<open>j < Suc k\<close> k(3) show ?thesis by (simp add: ev del: evictOldest.simps)
      qed
    qed
    show ?thesis
      using k(1,2,4) all step
      by (intro exI [of _ "Suc k"]) (simp only: ev, simp add: em)
  qed
qed

lemma serialize_no_bindings:
  "topicToFromChat d = [] \<Longrightarrow> serialize d = joinElem (superGroupChatId d)"
  by (simp add: serialize_def stringifyMetadata_def)

lemma toString_more: "toString 12 = ''12''" "toString 557 = ''557''"
  by (simp_all add: js_eval)

lemma longMeta_evicted:
  "evictOldest (Suc 0) (longMeta\<lparr>superGroupChatId := g\<rparr>) =
     \<lparr>superGroupChatId = g, topicToFromChat = [(11, 556), (12, 557)],
      fromChatToTopic = [(556, 11), (557, 12)], bannedTopics = [],
      topicToComment = [], fromChatToComment = []\<rparr>"
  by (simp add: longMeta_def removeMapping_def Map_delete_def truthy_def Let_def)

lemma longMeta_serialize_long: "4096 < length (serialize (longMeta\<lparr>superGroupChatId := g\<rparr>))"
  by (simp add: longMeta_def serialize_def stringifyMetadata_def encodeItem_def stripDelims_def
      Let_def filter_replicate)

lemma longMeta_serialize_evicted:
  "serialize (evictOldest (Suc 0) (longMeta\<lparr>superGroupChatId := g\<rparr>)) =
     joinElem g @ '';11:556;12:557''"
  unfolding longMeta_evicted
  by (simp add: serialize_def stringifyMetadata_def encodeItem_def
      toString_examples toString_more Let_def)

section \<open>What the calls of the engine change\<close>

lemma copyCalls_update [simp]:
  "copyCalls (w\<lparr>w_metaData := d\<rparr>) = copyCalls w"
  "copyCalls (w\<lparr>w_kvStore := k\<rparr>) = copyCalls w"
  "copyCalls (w\<lparr>w_topicsKv := t\<rparr>) = copyCalls w"
  by (simp_all add: copyCalls_def)

lemma post_simps:
  "fst (postToTelegramApi g w c) = g (w_posts w) c"
  "w_posts (snd (postToTelegramApi g w c)) = w_posts w @ [c]"
  "w_metaData (snd (postToTelegramApi g w c)) = w_metaData w"
  "w_kvStore (snd (postToTelegramApi g w c)) = w_kvStore w"
  by (simp_all add: postToTelegramApi_def)

lemma call_reply: "fst (callTelegramApi g w c owner) = g (w_posts w) c"
  by (simp add: callTelegramApi_def post_simps split_def Let_def split: option.splits)

lemma call_frame:
  "w_metaData (snd (callTelegramApi g w c owner)) = w_metaData w"
  "w_kvStore (snd (callTelegramApi g w c owner)) = w_kvStore w"
  by (simp_all add: callTelegramApi_def post_simps split_def Let_def split: option.splits)

lemma call_posts:
  "w_posts (snd (callTelegramApi g w c owner)) =
     w_posts w @ c #
       (case owner of
          None \<Rightarrow> []
        | Some ow \<Rightarrow> if \<not> reply_ok (g (w_posts w) c) \<and> \<not> isSendMessage c
                     then [SendNotice ow ApiFailure] else [])"
  by (simp add: callTelegramApi_def post_simps split_def Let_def split: option.splits)

lemma call_copies:
  "copyCalls (snd (callTelegramApi g w c owner)) =
     copyCalls w @ (if isCopyMessage c then [c] else [])"
  by (simp add: copyCalls_def call_posts split: option.splits)



lemma editMetadata_frame:
  "w_metaData (snd (editMetadata g owner w mm text)) = w_metaData w"
  "w_kvStore (snd (editMetadata g owner w mm text)) = w_kvStore w"
  "copyCalls (snd (editMetadata g owner w mm text)) = copyCalls w"
  by (simp_all add: editMetadata_def split_def Let_def call_frame call_copies split: option.splits)

lemma updateMapping_frame:
  "w_metaData (snd (updateMapping g owner w mm)) = snd (trimMetadataEntries (w_metaData w))"
  "w_kvStore (snd (updateMapping g owner w mm)) = w_kvStore w"
  "copyCalls (snd (updateMapping g owner w mm)) = copyCalls w"
  by (simp_all add: updateMapping_def Let_def editMetadata_frame saveTopicMappingToKV_def)

lemma isSupergroupAdmin_eq:
  "isSupergroupAdmin g w gid u =
     (Option.bind (reply_result (g (w_posts w) (GetChatMember gid u))) res_status
        \<in> {Some ''creator'', Some ''administrator''},
      w\<lparr>w_posts := w_posts w @ [GetChatMember gid u]\<rparr>)"
  by (simp add: isSupergroupAdmin_def callTelegramApi_def postToTelegramApi_def Let_def)

lemma isSupergroupAdmin_frame:
  "w_metaData (snd (isSupergroupAdmin g w gid u)) = w_metaData w"
  "w_kvStore (snd (isSupergroupAdmin g w gid u)) = w_kvStore w"
  "copyCalls (snd (isSupergroupAdmin g w gid u)) = copyCalls w"
  by (simp_all add: isSupergroupAdmin_eq copyCalls_def)

lemma ensureTopic_bound:
  "truthy (Map_get (fromChatToTopic (w_metaData w)) u) \<Longrightarrow>
   ensureTopic g owner w mm u = (Inr (the (Map_get (fromChatToTopic (w_metaData w)) u), mm), w)"
  by (simp add: ensureTopic_def)


lemma load_frame:
  "w_metaData (snd (loadMessageMappingText g w gid)) = w_metaData w"
  "w_kvStore (snd (loadMessageMappingText g w gid)) = w_kvStore w"
  "copyCalls (snd (loadMessageMappingText g w gid)) = copyCalls w"
  by (simp_all add: loadMessageMappingText_def split_def Let_def call_frame call_copies)

lemma find_frame:
  "w_metaData (snd (findTopicMessageId g w gid q)) = w_metaData w"
  "copyCalls (snd (findTopicMessageId g w gid q)) = copyCalls w"
  by (simp_all add: findTopicMessageId_def split_def Let_def load_frame split: option.splits)


lemma cleanup_frame:
  "w_metaData (cleanupTopicMessages w gid t) = w_metaData w"
  "copyCalls (cleanupTopicMessages w gid t) = copyCalls w"
  by (simp_all add: cleanupTopicMessages_def split: option.splits)

section \<open>Facts about the relay\<close>

lemma forward_Suc:
  "forwardPrivateToTopic (Suc k) g owner w mm m =
     (if relayBlocked w m
      then Some (snd (callTelegramApi g w (SendNotice (msg_chat_id m) BlockedNotice) (Some owner)))
      else
        (case ensureTopic g owner w mm (msg_chat_id m) of
           (Inl err, w1) \<Rightarrow> Some (relayFailed g owner w1 m)
         | (Inr ensured, w1) \<Rightarrow>
             if \<not> reply_ok (fst (relayCopy g owner (relayLookup g w1 m) m (fst ensured)))
             then
               (if threadInvalid
                     (reply_description (fst (relayCopy g owner (relayLookup g w1 m) m (fst ensured))))
                then
                  (case relayRecover g owner
                          (snd (relayCopy g owner (relayLookup g w1 m) m (fst ensured)))
                          (relayTarget (relayLookup g w1 m) (fst ensured)) (snd ensured) of
                     (Inl err, w6) \<Rightarrow> Some (relayFailed g owner w6 m)
                   | (Inr refreshed, w6) \<Rightarrow> forwardPrivateToTopic k g owner w6 refreshed m)
                else Some (notifyMessageFailed g
                             (snd (relayCopy g owner (relayLookup g w1 m) m (fst ensured)))
                             (msg_chat_id m) (msg_message_id m)))
             else
               (case fst (relayAdd g (relayCopy g owner (relayLookup g w1 m) m (fst ensured)) m
                            (relayTarget (relayLookup g w1 m) (fst ensured))) of
                  Some err \<Rightarrow>
                    Some (relayFailed g owner
                            (snd (relayAdd g (relayCopy g owner (relayLookup g w1 m) m (fst ensured)) m
                                    (relayTarget (relayLookup g w1 m) (fst ensured)))) m)
                | None \<Rightarrow>
                    Some (notifyMessageSent g
                            (snd (relayAdd g (relayCopy g owner (relayLookup g w1 m) m (fst ensured)) m
                                    (relayTarget (relayLookup g w1 m) (fst ensured))))
                            (msg_chat_id m) (msg_message_id m)))))"
  by (simp only: forwardPrivateToTopic.simps Let_def relayLookup_def relayTarget_def relayCopy_def
      relayRecover_def relayAdd_def relayBlocked_def)


lemma lookup_frame:
  "w_metaData (snd (relayLookup g w m)) = w_metaData w"
  "copyCalls (snd (relayLookup g w m)) = copyCalls w"
  by (simp_all add: relayLookup_def find_frame split: option.splits)

lemma copy_frame:
  "w_metaData (snd (relayCopy g owner found m t)) = w_metaData (snd found)"
  "length (copyCalls (snd (relayCopy g owner found m t))) = Suc (length (copyCalls (snd found)))"
  by (simp_all add: relayCopy_def call_frame call_copies)

lemma recover_frame:
  "w_metaData (snd (relayRecover g owner w3 t mm)) =
     snd (trimMetadataEntries (removeMapping (w_metaData w3) t))"
  "copyCalls (snd (relayRecover g owner w3 t mm)) = copyCalls w3"
  by (simp_all add: relayRecover_def updateMapping_frame cleanup_frame)









lemma trimLoop_banned_empty:
  "bannedTopics d = [] \<Longrightarrow> bannedTopics (snd (trimLoop d)) = []"
proof (induction d rule: trimLoop.induct)
  case (1 d)
  show ?case
  proof (cases "MAX_TEXT_LENGTH < length (serialize d) \<and> 0 < length (topicToFromChat d)")
    case True
    have "bannedTopics (removeMapping d (fst (hd (topicToFromChat d)))) = []"
      using "1.prems" by (simp add: removeMapping_fields)
    from "1.IH" [OF refl True this] True show ?thesis
      by (subst trimLoop.simps) (simp add: Let_def)
  next
    case False
    with "1.prems" show ?thesis by (subst trimLoop.simps) (auto simp: Let_def)
  qed
qed

lemma trim_banned_empty:
  "bannedTopics d = [] \<Longrightarrow> bannedTopics (snd (trimMetadataEntries d)) = []"
  by (simp add: trimMetadataEntries_def Let_def trimLoop_banned_empty)




lemma stubborn_other:
  "\<not> isCopyMessage c \<Longrightarrow> reply_ok (stubbornGateway h c) \<and>
     reply_result (stubbornGateway h c) \<noteq> None"
  by (cases c) simp_all

lemma stubborn_update:
  assumes "bannedTopics (w_metaData w) = []"
  shows "\<exists>r' w'. updateMapping stubbornGateway owner w (Some r) = (Inr (Some r'), w') \<and>
           bannedTopics (w_metaData w') = []"
proof -
  obtain res w' where u: "updateMapping stubbornGateway owner w (Some r) = (res, w')"
    by (cases "updateMapping stubbornGateway owner w (Some r)")
  have "w_metaData w' = snd (trimMetadataEntries (w_metaData w))"
    using updateMapping_frame(1) [of stubbornGateway owner w "Some r"] u by simp
  then have b: "bannedTopics (w_metaData w') = []"
    using assms by (simp add: trim_banned_empty)
  have "\<exists>r'. res = Inr (Some r')"
    using u by (auto simp: updateMapping_def editMetadata_def Let_def split_def call_reply)
  with u b show ?thesis by auto
qed

lemma stubborn_ensure:
  assumes "bannedTopics (w_metaData w) = []"
  shows "\<exists>t r' w1. ensureTopic stubbornGateway owner w (Some r) u = (Inr (t, Some r'), w1) \<and>
           bannedTopics (w_metaData w1) = []"
proof (cases "truthy (Map_get (fromChatToTopic (w_metaData w)) u)")
  case True
  from ensureTopic_bound [OF True] assms show ?thesis by blast
next
  case False
  let ?w1 = "snd (isSupergroupAdmin stubbornGateway w (superGroupChatId (w_metaData w)) u)"
  let ?c = "callTelegramApi stubbornGateway ?w1 (CreateForumTopic (superGroupChatId (w_metaData ?w1)))
              (Some owner)"
  let ?t = "int (length (w_posts ?w1)) + 1"
  let ?w3 = "(snd ?c)\<lparr>w_metaData := upsertMapping (w_metaData (snd ?c)) ?t u None\<rparr>"
  have na: "\<not> fst (isSupergroupAdmin stubbornGateway w (superGroupChatId (w_metaData w)) u)"
    by (simp add: isSupergroupAdmin_eq okResult_def)
  have cr: "reply_ok (fst ?c)"
      "Option.bind (reply_result (fst ?c)) res_message_thread_id = Some ?t"
    by (simp_all add: call_reply okResult_def)
  have tt: "truthy (Some ?t)" by (simp add: truthy_def)
  have b3: "bannedTopics (w_metaData ?w3) = []"
    using assms by (simp add: upsertMapping_fields call_frame isSupergroupAdmin_frame)
  from stubborn_update [OF b3, of owner r]
  obtain r' w4 where u4: "updateMapping stubbornGateway owner ?w3 (Some r) = (Inr (Some r'), w4)"
    "bannedTopics (w_metaData w4) = []" by blast
  have "ensureTopic stubbornGateway owner w (Some r) u = (Inr (?t, Some r'), w4)"
    using False na cr tt u4(1)
    by (simp add: ensureTopic_def Let_def split_def)
  with u4(2) show ?thesis by blast
qed

lemma stubborn_copy:
  "\<not> reply_ok (fst (relayCopy stubbornGateway owner found m t))"
  "threadInvalid (reply_description (fst (relayCopy stubbornGateway owner found m t)))"
  by (simp_all add: relayCopy_def call_reply threadInvalid_def)

lemma stubborn_recover:
  assumes "bannedTopics (w_metaData w3) = []"
  shows "\<exists>r' w6. relayRecover stubbornGateway owner w3 t (Some r) = (Inr (Some r'), w6) \<and>
           bannedTopics (w_metaData w6) = []"
proof -
  have "bannedTopics (w_metaData (cleanupTopicMessages
          (w3\<lparr>w_metaData := removeMapping (w_metaData w3) t\<rparr>)
          (superGroupChatId (w_metaData (w3\<lparr>w_metaData := removeMapping (w_metaData w3) t\<rparr>)))
          t)) = []"
    using assms by (simp add: cleanup_frame removeMapping_fields)
  from stubborn_update [OF this, of owner r] show ?thesis
    by (simp add: relayRecover_def)
qed

lemma forward_never_returns:
  "bannedTopics (w_metaData w) = [] \<Longrightarrow>
   forwardPrivateToTopic fuel stubbornGateway owner w (Some r) m = None"
proof (induction fuel arbitrary: w r)
  case 0
  show ?case by (simp add: forwardPrivateToTopic.simps)
next
  case (Suc fuel)
  have nb: "\<not> relayBlocked w m"
    using Suc.prems by (simp add: relayBlocked_def isTopicBanned_def)
  from stubborn_ensure [OF Suc.prems, of owner r "msg_chat_id m"]
  obtain t r1 w1 where ens: "ensureTopic stubbornGateway owner w (Some r) (msg_chat_id m)
      = (Inr (t, Some r1), w1)" and b1: "bannedTopics (w_metaData w1) = []" by blast
  let ?copied = "relayCopy stubbornGateway owner (relayLookup stubbornGateway w1 m) m t"
  have b3: "bannedTopics (w_metaData (snd ?copied)) = []"
    using b1 by (simp add: copy_frame lookup_frame)
  from stubborn_recover [OF b3, of owner "relayTarget (relayLookup stubbornGateway w1 m) t" r1]
  obtain r6 w6 where rec: "relayRecover stubbornGateway owner (snd ?copied)
      (relayTarget (relayLookup stubbornGateway w1 m) t) (Some r1) = (Inr (Some r6), w6)"
    and b6: "bannedTopics (w_metaData w6) = []" by blast
  have "forwardPrivateToTopic (Suc fuel) stubbornGateway owner w (Some r) m =
        forwardPrivateToTopic fuel stubbornGateway owner w6 (Some r6) m"
    unfolding forward_Suc using nb ens rec by (simp add: stubborn_copy)
  with Suc.IH [OF b6] show ?case by simp
qed

lemma pinned_links: "parseMessageMappings ''99-5:3'' =
    [\<lparr>link_topicId = 99, link_topicMessageId = 5, link_pmMessageId = 3\<rparr>]"
  by (simp add: parseMessageMappings_def js_eval)

lemma dead_lookup:
  "w_kvStore w = None \<Longrightarrow>
   fst (relayLookup deadThreadGateway w replyMessage) = (Some 99, Some 5)"
  by (simp add: relayLookup_def replyMessage_def findTopicMessageId_def loadMessageMappingText_def
      split_def Let_def call_reply okResult_def pinned_links truthy_def)

lemma dead_lookup_frame:
  "w_kvStore (snd (relayLookup deadThreadGateway w replyMessage)) = w_kvStore w"
  by (simp add: relayLookup_def replyMessage_def findTopicMessageId_def load_frame split_def Let_def
      split: option.splits)

lemma exampleMeta_short: "trimMetadataEntries exampleMeta = (''-100123;10:555'', exampleMeta)"
  by (simp add: trimMetadataEntries_def serialize_def stringifyMetadata_def encodeItem_def
      joinElem_def exampleMeta_def toString_examples Let_def MAX_TEXT_LENGTH_def)

lemma exampleMeta_remove_dead: "removeMapping exampleMeta 99 = exampleMeta"
  by (simp add: removeMapping_def exampleMeta_def truthy_def Let_def Map_delete_def)

lemma updateMapping_result:
  "fst (updateMapping g owner w (Some r)) =
     (if \<not> reply_ok (g (w_posts w) (EditMetadataText owner (res_message_id r)
                (take MAX_TEXT_LENGTH (fst (trimMetadataEntries (w_metaData w))))))
      then Inr (Some r)
      else Inr (reply_result (g (w_posts w) (EditMetadataText owner (res_message_id r)
                (take MAX_TEXT_LENGTH (fst (trimMetadataEntries (w_metaData w))))))))"
  by (simp add: updateMapping_def editMetadata_def Let_def split_def call_reply
      saveTopicMappingToKV_def)

lemma recover_kv_none:
  "w_kvStore w3 = None \<Longrightarrow> w_kvStore (snd (relayRecover g owner w3 t mm)) = None"
  by (simp add: relayRecover_def updateMapping_frame cleanupTopicMessages_def)

lemma dead_step:
  assumes "w_metaData w = exampleMeta" "w_kvStore w = None"
  shows "\<exists>w6. forwardPrivateToTopic (Suc fuel) deadThreadGateway owner w (Some r) replyMessage =
               forwardPrivateToTopic fuel deadThreadGateway owner w6 (Some okResult) replyMessage \<and>
             w_metaData w6 = exampleMeta \<and> w_kvStore w6 = None"
proof -
  have nb: "\<not> relayBlocked w replyMessage"
    using assms(1) by (simp add: relayBlocked_def isTopicBanned_def exampleMeta_def)
  have tr: "truthy (Map_get (fromChatToTopic (w_metaData w)) (msg_chat_id replyMessage))"
    using assms(1) by (simp add: exampleMeta_def replyMessage_def truthy_def)
  have ens: "ensureTopic deadThreadGateway owner w (Some r) (msg_chat_id replyMessage) =
             (Inr (10, Some r), w)"
    using ensureTopic_bound [OF tr] assms(1) by (simp add: exampleMeta_def replyMessage_def)
  let ?found = "relayLookup deadThreadGateway w replyMessage"
  have tg: "relayTarget ?found 10 = 99"
    using dead_lookup [OF assms(2)] by (simp add: relayTarget_def truthy_def)
  let ?copied = "relayCopy deadThreadGateway owner ?found replyMessage 10"
  have rej: "\<not> reply_ok (fst ?copied)" "threadInvalid (reply_description (fst ?copied))"
    using tg by (simp_all add: relayCopy_def call_reply threadInvalid_def)
  have m3: "w_metaData (snd ?copied) = exampleMeta"
    using assms(1) by (simp add: copy_frame lookup_frame)
  have k3: "w_kvStore (snd ?copied) = None"
    using assms(2) by (simp add: relayCopy_def call_frame dead_lookup_frame)
  obtain r6 w6 where rec: "relayRecover deadThreadGateway owner (snd ?copied) 99 (Some r) = (r6, w6)"
    by (cases "relayRecover deadThreadGateway owner (snd ?copied) 99 (Some r)")
  have m6: "w_metaData w6 = exampleMeta"
    using recover_frame(1) [of deadThreadGateway owner "snd ?copied" 99 "Some r"] rec m3
    by (simp add: exampleMeta_remove_dead exampleMeta_short)
  have k6: "w_kvStore w6 = None"
    using recover_kv_none [OF k3, of deadThreadGateway owner 99 "Some r"] rec by simp
  have "fst (relayRecover deadThreadGateway owner (snd ?copied) 99 (Some r)) = Inr (Some okResult)"
    unfolding relayRecover_def updateMapping_result by simp
  with rec have r6: "r6 = Inr (Some okResult)" by simp
  have "forwardPrivateToTopic (Suc fuel) deadThreadGateway owner w (Some r) replyMessage =
        forwardPrivateToTopic fuel deadThreadGateway owner w6 (Some okResult) replyMessage"
    unfolding forward_Suc using nb ens rej rec r6 by (simp add: tg)
  with m6 k6 show ?thesis by blast
qed

lemma dead_never_returns:
  "w_metaData w = exampleMeta \<Longrightarrow> w_kvStore w = None \<Longrightarrow>
   forwardPrivateToTopic fuel deadThreadGateway owner w (Some r) replyMessage = None"
proof (induction fuel arbitrary: w r)
  case 0
  show ?case by (simp add: forwardPrivateToTopic.simps)
next
  case (Suc fuel)
  from dead_step [OF Suc.prems, of fuel owner r]
  obtain w6 where "forwardPrivateToTopic (Suc fuel) deadThreadGateway owner w (Some r) replyMessage =
               forwardPrivateToTopic fuel deadThreadGateway owner w6 (Some okResult) replyMessage"
    "w_metaData w6 = exampleMeta" "w_kvStore w6 = None" by blast
  with Suc.IH [of w6 okResult] show ?case by simp
qed

section \<open>The binding maps stay mutual inverses\<close>

lemma mutualInverse_bijective: "mutualInverse d \<longleftrightarrow> bijectiveBinding d"
proof
  assume "mutualInverse d"
  then have iff: "\<And>t u. Map_get (topicToFromChat d) t = Some u \<longleftrightarrow> Map_get (fromChatToTopic d) u = Some t"
    by (simp add: mutualInverse_iff)
  have inj1: "t1 = t2"
    if "Map_get (topicToFromChat d) t1 = Some u" "Map_get (topicToFromChat d) t2 = Some u"
    for t1 t2 u
  proof -
    from that have "Map_get (fromChatToTopic d) u = Some t1" "Map_get (fromChatToTopic d) u = Some t2"
      by (simp_all only: iff)
    then show ?thesis by simp
  qed
  have inj2: "u1 = u2"
    if "Map_get (fromChatToTopic d) u1 = Some t" "Map_get (fromChatToTopic d) u2 = Some t"
    for u1 u2 t
  proof -
    from that have "Map_get (topicToFromChat d) t = Some u1" "Map_get (topicToFromChat d) t = Some u2"
      by (simp_all only: iff [symmetric])
    then show ?thesis by simp
  qed
  show "bijectiveBinding d"
    unfolding bijectiveBinding_def using iff inj1 inj2 by blast
next
  assume "bijectiveBinding d"
  then show "mutualInverse d" by (simp add: bijectiveBinding_def mutualInverse_iff)
qed

lemma upsertMapping_inverse:
  assumes mi: "mutualInverse d"
      and fresh: "(Map_get (topicToFromChat d) t = None \<and> Map_get (fromChatToTopic d) u = None)
                  \<or> Map_get (topicToFromChat d) t = Some u"
  shows "mutualInverse (upsertMapping d t u c)"
proof -
  from mi have iff: "\<And>t u. Map_get (topicToFromChat d) t = Some u \<longleftrightarrow> Map_get (fromChatToTopic d) u = Some t"
    by (simp add: mutualInverse_iff)
  show ?thesis
    unfolding mutualInverse_iff upsertMapping_fields Map_get_set
  proof (intro allI)
    fix t' u'
    show "((if t' = t then Some u else Map_get (topicToFromChat d) t') = Some u') =
          ((if u' = u then Some t else Map_get (fromChatToTopic d) u') = Some t')"
      using fresh iff [of t' u'] iff [of t u'] iff [of t' u] iff [of t u]
      by (cases "t' = t"; cases "u' = u") auto
  qed
qed

lemma removeMapping_inverse:
  assumes mi: "mutualInverse d"
      and nz: "Map_get (topicToFromChat d) t \<noteq> Some 0"
  shows "mutualInverse (removeMapping d t)"
proof -
  from mi have iff: "\<And>t u. Map_get (topicToFromChat d) t = Some u \<longleftrightarrow> Map_get (fromChatToTopic d) u = Some t"
    by (simp add: mutualInverse_iff)
  show ?thesis
  proof (cases "Map_get (topicToFromChat d) t")
    case None
    then have "\<And>u. Map_get (fromChatToTopic d) u \<noteq> Some t" using iff [of t] by simp
    with None show ?thesis
      unfolding mutualInverse_iff removeMapping_fields Map_get_delete
      using iff by (auto simp: truthy_def)
  next
    case (Some u0)
    with nz have tr: "truthy (Map_get (topicToFromChat d) t)" by (simp add: truthy_def)
    show ?thesis
      unfolding mutualInverse_iff removeMapping_fields Map_get_delete
    proof (intro allI)
      fix t' u'
      show "((if t' = t then None else Map_get (topicToFromChat d) t') = Some u') =
        (Map_get (if truthy (Map_get (topicToFromChat d) t)
                  then Map_delete (fromChatToTopic d) (the (Map_get (topicToFromChat d) t))
                  else fromChatToTopic d) u' = Some t')"
        using tr Some iff [of t' u'] iff [of t u'] iff [of t' u0] iff [of t u0]
        by (cases "t' = t"; cases "u' = u0") (auto simp: Map_get_delete)
    qed
  qed
qed

lemma markBan_inverse: "mutualInverse d \<Longrightarrow> mutualInverse (markBan d t b)"
  by (simp add: mutualInverse_iff markBan_maps)

text \<open>
  Claim C1, as the code has it. Starting from binding maps that are mutual inverses:
  \<open>upsertMapping\<close> of a topic and a user chat that are both unbound (or already bound to
  each other) keeps them mutual inverses; \<open>removeMapping\<close> of a topic keeps them so unless
  the topic is bound to the user chat id \<open>0\<close>, which the code reads as "no binding";
  \<open>markBan\<close> always keeps them so. Afterwards the topic map sends \<open>t\<close> to \<open>u\<close> exactly
  when the user map sends \<open>u\<close> to \<open>t\<close>, no user chat belongs to two topics and no topic to
  two user chats.
\<close>

theorem store_operations_preserve_inverse:
  assumes "mutualInverse d"
  shows "(((Map_get (topicToFromChat d) t = None \<and> Map_get (fromChatToTopic d) u = None)
            \<or> Map_get (topicToFromChat d) t = Some u)
          \<longrightarrow> mutualInverse (upsertMapping d t u c) \<and> bijectiveBinding (upsertMapping d t u c)) \<and>
         (Map_get (topicToFromChat d) t' \<noteq> Some 0
          \<longrightarrow> mutualInverse (removeMapping d t') \<and> bijectiveBinding (removeMapping d t')) \<and>
         mutualInverse (markBan d t'' b) \<and> bijectiveBinding (markBan d t'' b)"
  using assms upsertMapping_inverse [of d t u c] removeMapping_inverse [of d t']
    markBan_inverse [of d t'' b]
  by (simp add: mutualInverse_bijective [symmetric])

text \<open>The theorem at the scenario: a new binding \<open>11, 556\<close>, removal of thread \<open>10\<close>, and
  blocking of thread \<open>10\<close>.\<close>

theorem store_operations_preserve_inverse_witness:
  "mutualInverse exampleMeta \<and>
   mutualInverse (upsertMapping exampleMeta 11 556 None) \<and>
   mutualInverse (removeMapping exampleMeta 10) \<and>
   mutualInverse (markBan exampleMeta 10 True)"
proof -
  have mi: "mutualInverse exampleMeta"
    by (simp add: mutualInverse_def exampleMeta_def)
  have "Map_get (topicToFromChat exampleMeta) 11 = None \<and> Map_get (fromChatToTopic exampleMeta) 556 = None"
    "Map_get (topicToFromChat exampleMeta) 10 \<noteq> Some 0"
    by (simp_all add: exampleMeta_def)
  with mi store_operations_preserve_inverse [OF mi, of 11 556 None 10 10 True]
  show ?thesis by simp
qed

text \<open>
  C1 as stated fails for \<open>upsertMapping\<close> of a new topic for a user chat that is already
  bound: the new binding of thread \<open>11\<close> to chat \<open>555\<close> is inserted, the binding of thread
  \<open>10\<close> to chat \<open>555\<close> stays in the topic map, and chat \<open>555\<close> belongs to two topics.
\<close>

theorem upsertMapping_breaks_inverse:
  "mutualInverse exampleMeta \<and>
   \<not> mutualInverse (upsertMapping exampleMeta 11 555 None) \<and>
   Map_get (topicToFromChat (upsertMapping exampleMeta 11 555 None)) 10 = Some 555 \<and>
   Map_get (topicToFromChat (upsertMapping exampleMeta 11 555 None)) 11 = Some 555"
  by (simp add: mutualInverse_def exampleMeta_def upsertMapping_def)

section \<open>What removeMapping removes and what it leaves\<close>

text \<open>
  Claim C10, as the code has it. When the topic \<open>t\<close> is not bound to the user chat id \<open>0\<close>
  and the blocked list names \<open>t\<close> at most once, \<open>removeMapping data t\<close> removes \<open>t\<close> from the
  topic map, from the topic labels and from the blocked list, removes the user chat bound to
  \<open>t\<close> from the user map and the user labels, and leaves every entry under another topic id
  or user chat id, and the group id, as it was.
\<close>

theorem removeMapping_frame:
  assumes "Map_get (topicToFromChat d) t \<noteq> Some 0"
      and "count_list (bannedTopics d) (toString t) \<le> 1"
  shows "Map_get (topicToFromChat (removeMapping d t)) t = None \<and>
         Map_get (topicToComment (removeMapping d t)) t = None \<and>
         \<not> isTopicBanned (removeMapping d t) t \<and>
         (\<forall>u. Map_get (topicToFromChat d) t = Some u \<longrightarrow>
              Map_get (fromChatToTopic (removeMapping d t)) u = None \<and>
              Map_get (fromChatToComment (removeMapping d t)) u = None) \<and>
         (\<forall>t'. t' \<noteq> t \<longrightarrow>
              Map_get (topicToFromChat (removeMapping d t)) t' = Map_get (topicToFromChat d) t' \<and>
              Map_get (topicToComment (removeMapping d t)) t' = Map_get (topicToComment d) t' \<and>
              isTopicBanned (removeMapping d t) t' = isTopicBanned d t') \<and>
         (\<forall>u'. Map_get (topicToFromChat d) t \<noteq> Some u' \<longrightarrow>
              Map_get (fromChatToTopic (removeMapping d t)) u' = Map_get (fromChatToTopic d) u' \<and>
              Map_get (fromChatToComment (removeMapping d t)) u' = Map_get (fromChatToComment d) u') \<and>
         superGroupChatId (removeMapping d t) = superGroupChatId d"
proof -
  have once: "toString t \<notin> set (remove1 (toString t) (bannedTopics d))"
    using assms(2) by (rule remove1_once)
  have other: "toString t' \<in> set (remove1 (toString t) (bannedTopics d)) \<longleftrightarrow>
               toString t' \<in> set (bannedTopics d)" if "t' \<noteq> t" for t'
  proof -
    from that have "toString t' \<noteq> toString t" using toString_inj by blast
    then show ?thesis by simp
  qed
  show ?thesis
  proof (cases "Map_get (topicToFromChat d) t")
    case None
    then show ?thesis
      using once other
      by (simp add: removeMapping_fields Map_get_delete isTopicBanned_def truthy_def)
  next
    case (Some u0)
    with assms(1) have "u0 \<noteq> 0" by simp
    with Some show ?thesis
      using once other
      by (simp add: removeMapping_fields Map_get_delete isTopicBanned_def truthy_def)
  qed
qed

text \<open>The theorem at the blocked, labelled thread \<open>10\<close> of the sample structure.\<close>

theorem removeMapping_frame_witness:
  "Map_get (topicToFromChat (removeMapping exampleBlocked 10)) 10 = None \<and>
   Map_get (topicToComment (removeMapping exampleBlocked 10)) 10 = None \<and>
   \<not> isTopicBanned (removeMapping exampleBlocked 10) 10 \<and>
   Map_get (fromChatToTopic (removeMapping exampleBlocked 10)) 555 = None \<and>
   Map_get (fromChatToComment (removeMapping exampleBlocked 10)) 555 = None \<and>
   Map_get (topicToFromChat (removeMapping exampleBlocked 10)) 11 = Some 556 \<and>
   Map_get (fromChatToTopic (removeMapping exampleBlocked 10)) 556 = Some 11"
proof -
  have h0: "Map_get (topicToFromChat exampleBlocked) 10 = Some 555"
    by (simp add: exampleBlocked_def)
  have h1: "Map_get (topicToFromChat exampleBlocked) 10 \<noteq> Some 0"
    by (simp add: exampleBlocked_def)
  have h2: "count_list (bannedTopics exampleBlocked) (toString 10) \<le> 1"
    by (simp add: exampleBlocked_def toString_examples)
  have h3: "Map_get (topicToFromChat exampleBlocked) 11 = Some 556"
       "Map_get (fromChatToTopic exampleBlocked) 556 = Some 11"
    by (simp_all add: exampleBlocked_def)
  from removeMapping_frame [OF h1 h2] h0 h3 show ?thesis by auto
qed

text \<open>
  C10 as stated fails on a blocked list that names the topic twice, as \<open>parseMetadataText\<close>
  builds it from a record with a repeated entry: \<open>splice\<close> removes the first occurrence only
  and the topic stays blocked after its binding is gone.
\<close>

theorem removeMapping_leaves_duplicate_flag:
  "isTopicBanned (removeMapping (parseMetadataText (Some ''-100123;10:b555;10:b555'')) 10) 10"
  by (simp add: parseMetadataText_def emptyMetadata_def removeMapping_def isTopicBanned_def
      splice1_def js_eval)

text \<open>It also fails for a topic bound to the user chat id \<open>0\<close>: the user map keeps the entry.\<close>

lemma removeMapping_keeps_chat_zero:
  "Map_get (fromChatToTopic (removeMapping (parseMetadataText (Some ''-100123;10:0'')) 10)) 0 = Some 10"
  by (simp add: parseMetadataText_def emptyMetadata_def removeMapping_def js_eval)

section \<open>Encoding then decoding\<close>

text \<open>
  Claim C3, as the code has it. For every metadata structure whose group id is not \<open>null\<close>
  (or that has no binding), whose topic map has one entry per key, and whose encoding by
  \<open>stringifyMetadata\<close> is at most 4096 characters long, \<open>parseMetadataText\<close> of the encoding
  has the same bindings, in the same order, and the same blocked flag for every binding.
\<close>

theorem stringify_parse_roundtrip:
  assumes "superGroupChatId d \<noteq> Null \<or> topicToFromChat d = []"
      and "distinct (map fst (topicToFromChat d))"
      and "length (stringifyMetadata (superGroupChatId d) (topicToFromChat d) (bannedTopics d)
             (topicToComment d)) \<le> MAX_TEXT_LENGTH"
  shows "topicToFromChat (parseMetadataText (Some (stringifyMetadata (superGroupChatId d)
             (topicToFromChat d) (bannedTopics d) (topicToComment d)))) = topicToFromChat d \<and>
         (\<forall>e \<in> set (topicToFromChat d).
            isTopicBanned (parseMetadataText (Some (stringifyMetadata (superGroupChatId d)
              (topicToFromChat d) (bannedTopics d) (topicToComment d)))) (fst e)
            = isTopicBanned d (fst e))"
proof (cases "superGroupChatId d = Null")
  case True
  with assms(1) have "topicToFromChat d = []" by simp
  with True show ?thesis by (simp add: roundtrip_empty)
next
  case False
  have "isTopicBanned (parseMetadataText (Some (stringifyMetadata (superGroupChatId d)
              (topicToFromChat d) (bannedTopics d) (topicToComment d)))) (fst e)
            = isTopicBanned d (fst e)" if "e \<in> set (topicToFromChat d)" for e
  proof -
    from that have "(fst e, snd e) \<in> set (topicToFromChat d)" by simp
    from roundtrip_flags [OF False this] show ?thesis by (simp add: isTopicBanned_def)
  qed
  with roundtrip_bindings [OF False assms(2)] show ?thesis by blast
qed

text \<open>The theorem at the sample structure with two bindings, one blocked and labelled.\<close>

theorem stringify_parse_roundtrip_witness:
  "topicToFromChat (parseMetadataText (Some (stringifyMetadata (superGroupChatId exampleBlocked)
      (topicToFromChat exampleBlocked) (bannedTopics exampleBlocked)
      (topicToComment exampleBlocked)))) = [(10, 555), (11, 556)] \<and>
   isTopicBanned (parseMetadataText (Some (stringifyMetadata (superGroupChatId exampleBlocked)
      (topicToFromChat exampleBlocked) (bannedTopics exampleBlocked)
      (topicToComment exampleBlocked)))) 10"
proof -
  have h1: "superGroupChatId exampleBlocked \<noteq> Null \<or> topicToFromChat exampleBlocked = []"
    by (simp add: exampleBlocked_def)
  have h2: "distinct (map fst (topicToFromChat exampleBlocked))"
    by (simp add: exampleBlocked_def)
  have h3: "length (stringifyMetadata (superGroupChatId exampleBlocked)
      (topicToFromChat exampleBlocked) (bannedTopics exampleBlocked)
      (topicToComment exampleBlocked)) \<le> MAX_TEXT_LENGTH"
    by (simp add: exampleBlocked_def stringifyMetadata_def encodeItem_def joinElem_def
        stripDelims_def MAX_TEXT_LENGTH_def toString_examples Let_def)
  have b: "isTopicBanned exampleBlocked 10"
    by (simp add: isTopicBanned_def exampleBlocked_def toString_examples)
  have m: "topicToFromChat exampleBlocked = [(10, 555), (11, 556)]"
    by (simp add: exampleBlocked_def)
  from stringify_parse_roundtrip [OF h1 h2 h3] b m show ?thesis by simp
qed

text \<open>
  C3 as stated fails for a structure with a \<open>null\<close> group id and a binding: the encoding
  starts with the separator, the decoder drops the empty chunk and reads the first binding
  as the group id.
\<close>

theorem stringify_parse_loses_binding_without_group:
  "length (stringifyMetadata Null [(10, 555)] [] []) \<le> MAX_TEXT_LENGTH \<and>
   topicToFromChat (parseMetadataText (Some (stringifyMetadata Null [(10, 555)] [] []))) = [] \<and>
   superGroupChatId (parseMetadataText (Some (stringifyMetadata Null [(10, 555)] [] []))) = Num 10"
  by (simp add: stringifyMetadata_def encodeItem_def joinElem_def MAX_TEXT_LENGTH_def
      toString_examples parseMetadataText_def emptyMetadata_def js_eval)

section \<open>Lookups in the message-link list\<close>

lemma scanByPm_none:
  "n \<le> length ms \<Longrightarrow> \<forall>l \<in> set (take n ms). link_pmMessageId l \<noteq> q \<Longrightarrow> scanByPm ms n q = (None, None)"
proof (induction n)
  case 0 show ?case by simp
next
  case (Suc n)
  then have "take (Suc n) ms = take n ms @ [ms ! n]" by (simp add: take_Suc_conv_app_nth)
  with Suc show ?case by (simp add: Let_def)
qed

lemma scanByPm_last:
  "i < n \<Longrightarrow> n \<le> length ms \<Longrightarrow> link_pmMessageId (ms ! i) = q \<Longrightarrow>
   \<forall>j. i < j \<and> j < n \<longrightarrow> link_pmMessageId (ms ! j) \<noteq> q \<Longrightarrow>
   scanByPm ms n q = (Some (link_topicId (ms ! i)), Some (link_topicMessageId (ms ! i)))"
proof (induction n)
  case 0 then show ?case by simp
next
  case (Suc n)
  show ?case
  proof (cases "i = n")
    case True with Suc.prems show ?thesis by (simp add: Let_def)
  next
    case False
    with Suc.prems have "i < n" "link_pmMessageId (ms ! n) \<noteq> q" by auto
    with Suc show ?thesis by (simp add: Let_def)
  qed
qed

lemma scanByPm_some:
  "n \<le> length ms \<Longrightarrow> scanByPm ms n q = (Some a, Some b) \<Longrightarrow>
   \<lparr>link_topicId = a, link_topicMessageId = b, link_pmMessageId = q\<rparr> \<in> set (take n ms)"
proof (induction n)
  case 0 then show ?case by simp
next
  case (Suc n)
  then have tk: "take (Suc n) ms = take n ms @ [ms ! n]" by (simp add: take_Suc_conv_app_nth)
  show ?case
  proof (cases "link_pmMessageId (ms ! n) = q")
    case True
    with Suc.prems have "ms ! n = \<lparr>link_topicId = a, link_topicMessageId = b, link_pmMessageId = q\<rparr>"
      by (cases "ms ! n") (simp add: Let_def)
    with tk show ?thesis by simp
  next
    case False
    with Suc show ?thesis by (simp add: Let_def tk)
  qed
qed

lemma scanByTopicMessage_none:
  "n \<le> length ms \<Longrightarrow> \<forall>l \<in> set (take n ms). link_topicMessageId l \<noteq> q \<Longrightarrow>
   scanByTopicMessage ms n q = (None, None)"
proof (induction n)
  case 0 show ?case by simp
next
  case (Suc n)
  then have "take (Suc n) ms = take n ms @ [ms ! n]" by (simp add: take_Suc_conv_app_nth)
  with Suc show ?case by (simp add: Let_def)
qed

lemma scanByTopicMessage_last:
  "i < n \<Longrightarrow> n \<le> length ms \<Longrightarrow> link_topicMessageId (ms ! i) = q \<Longrightarrow>
   \<forall>j. i < j \<and> j < n \<longrightarrow> link_topicMessageId (ms ! j) \<noteq> q \<Longrightarrow>
   scanByTopicMessage ms n q = (Some (link_topicId (ms ! i)), Some (link_pmMessageId (ms ! i)))"
proof (induction n)
  case 0 then show ?case by simp
next
  case (Suc n)
  show ?case
  proof (cases "i = n")
    case True with Suc.prems show ?thesis by (simp add: Let_def)
  next
    case False
    with Suc.prems have "i < n" "link_topicMessageId (ms ! n) \<noteq> q" by auto
    with Suc show ?thesis by (simp add: Let_def)
  qed
qed

lemma scanByTopicMessage_some:
  "n \<le> length ms \<Longrightarrow> scanByTopicMessage ms n q = (Some a, Some b) \<Longrightarrow>
   \<lparr>link_topicId = a, link_topicMessageId = q, link_pmMessageId = b\<rparr> \<in> set (take n ms)"
proof (induction n)
  case 0 then show ?case by simp
next
  case (Suc n)
  then have tk: "take (Suc n) ms = take n ms @ [ms ! n]" by (simp add: take_Suc_conv_app_nth)
  show ?case
  proof (cases "link_topicMessageId (ms ! n) = q")
    case True
    with Suc.prems have "ms ! n = \<lparr>link_topicId = a, link_topicMessageId = q, link_pmMessageId = b\<rparr>"
      by (cases "ms ! n") (simp add: Let_def)
    with tk show ?thesis by simp
  next
    case False
    with Suc show ?thesis by (simp add: Let_def tk)
  qed
qed

lemma exampleKv_load: "loadMappingsFromKV exampleKv (Num (- 100123)) = exampleLinks"
  by (simp add: loadMappingsFromKV_def exampleKv_def)

text \<open>
  Claim C6. For every stored message-link list and every queried id, \<open>findTopicMessageIdKV\<close>
  (by user-side message id) and \<open>findPmMessageIdKV\<close> (by thread-side message id) return the
  link at the greatest index that matches, that is the most recently appended one, so the
  last-written link wins under duplicate ids; when no link matches they return the object
  with both fields \<open>null\<close>.
\<close>

theorem lookups_last_write_wins:
  "((\<forall>l \<in> set (loadMappingsFromKV kv g). link_pmMessageId l \<noteq> q)
      \<longrightarrow> findTopicMessageIdKV kv g q = (None, None)) \<and>
   ((\<forall>l \<in> set (loadMappingsFromKV kv g). link_topicMessageId l \<noteq> q)
      \<longrightarrow> findPmMessageIdKV kv g q = (None, None)) \<and>
   (i < length (loadMappingsFromKV kv g) \<and>
    link_pmMessageId (loadMappingsFromKV kv g ! i) = q \<and>
    (\<forall>j. i < j \<and> j < length (loadMappingsFromKV kv g)
         \<longrightarrow> link_pmMessageId (loadMappingsFromKV kv g ! j) \<noteq> q)
      \<longrightarrow> findTopicMessageIdKV kv g q =
            (Some (link_topicId (loadMappingsFromKV kv g ! i)),
             Some (link_topicMessageId (loadMappingsFromKV kv g ! i)))) \<and>
   (i < length (loadMappingsFromKV kv g) \<and>
    link_topicMessageId (loadMappingsFromKV kv g ! i) = q \<and>
    (\<forall>j. i < j \<and> j < length (loadMappingsFromKV kv g)
         \<longrightarrow> link_topicMessageId (loadMappingsFromKV kv g ! j) \<noteq> q)
      \<longrightarrow> findPmMessageIdKV kv g q =
            (Some (link_topicId (loadMappingsFromKV kv g ! i)),
             Some (link_pmMessageId (loadMappingsFromKV kv g ! i))))"
  using scanByPm_none [of "length (loadMappingsFromKV kv g)" "loadMappingsFromKV kv g" q]
    scanByTopicMessage_none [of "length (loadMappingsFromKV kv g)" "loadMappingsFromKV kv g" q]
    scanByPm_last [of i "length (loadMappingsFromKV kv g)" "loadMappingsFromKV kv g" q]
    scanByTopicMessage_last [of i "length (loadMappingsFromKV kv g)" "loadMappingsFromKV kv g" q]
  by (simp add: findTopicMessageIdKV_def findPmMessageIdKV_def Let_def)

text \<open>The theorem on a list where the user-side id \<open>1\<close> and the thread-side id \<open>101\<close> each
  occur twice, and for the id \<open>7\<close> that no link has.\<close>

theorem lookups_last_write_wins_witness:
  "findTopicMessageIdKV exampleKv (Num (- 100123)) 1 = (Some 11, Some 101) \<and>
   findPmMessageIdKV exampleKv (Num (- 100123)) 101 = (Some 11, Some 1) \<and>
   findTopicMessageIdKV exampleKv (Num (- 100123)) 7 = (None, None) \<and>
   findPmMessageIdKV exampleKv (Num (- 100123)) 7 = (None, None)"
proof -
  have a: "findTopicMessageIdKV exampleKv (Num (- 100123)) 1 = (Some 11, Some 101)"
    using lookups_last_write_wins [of exampleKv "Num (- 100123)" 1 2]
    by (simp add: exampleKv_load exampleLinks_def)
  have b: "findPmMessageIdKV exampleKv (Num (- 100123)) 101 = (Some 11, Some 1)"
    using lookups_last_write_wins [of exampleKv "Num (- 100123)" 101 2]
    by (simp add: exampleKv_load exampleLinks_def)
  have c: "findTopicMessageIdKV exampleKv (Num (- 100123)) 7 = (None, None) \<and>
           findPmMessageIdKV exampleKv (Num (- 100123)) 7 = (None, None)"
    using lookups_last_write_wins [of exampleKv "Num (- 100123)" 7 0]
    by (simp add: exampleKv_load exampleLinks_def)
  from a b c show ?thesis by simp
qed

section \<open>The message-link list is capped at 1000 links\<close>

lemma sliceLast_sliceLast_append:
  "sliceLast n (sliceLast n xs @ ys) = sliceLast n (xs @ ys)"
proof (cases "length xs \<le> n")
  case True then show ?thesis by (simp add: sliceLast_def)
next
  case False
  then have "length ys + length xs - n = length xs + length ys - n" by arith
  with False show ?thesis
    by (simp add: sliceLast_def)
qed

lemma load_add:
  "loadMappingsFromKV (addMessageMappingKV kv g a b c) g =
     sliceLast MAX_KV_MAPPINGS
       (loadMappingsFromKV kv g @
        [\<lparr>link_topicId = a, link_topicMessageId = b, link_pmMessageId = c\<rparr>])"
  by (simp add: addMessageMappingKV_def saveMappingsToKV_def loadMappingsFromKV_def)

lemma load_appendLinks:
  "loadMappingsFromKV (appendLinks kv g ls) g =
     (if ls = [] then loadMappingsFromKV kv g
      else sliceLast MAX_KV_MAPPINGS (loadMappingsFromKV kv g @ ls))"
proof (induction ls arbitrary: kv)
  case Nil show ?case by simp
next
  case (Cons l ls)
  have l: "\<lparr>link_topicId = link_topicId l, link_topicMessageId = link_topicMessageId l,
            link_pmMessageId = link_pmMessageId l\<rparr> = l" by simp
  show ?case
  proof (cases "ls = []")
    case True then show ?thesis by (simp add: load_add l)
  next
    case False
    then show ?thesis
      using sliceLast_sliceLast_append [of MAX_KV_MAPPINGS "loadMappingsFromKV kv g @ [l]" ls]
      by (simp add: Cons.IH load_add l)
  qed
qed

lemma sliceLast_long: "n \<le> length ys \<Longrightarrow> sliceLast n (xs @ ys) = sliceLast n ys"
  by (simp add: sliceLast_def)

lemma load_appendLinks_many:
  assumes "MAX_KV_MAPPINGS < length ls"
  shows "loadMappingsFromKV (appendLinks kv g ls) g = drop (length ls - MAX_KV_MAPPINGS) ls"
proof -
  from assms have "ls \<noteq> []" by auto
  moreover from assms have "MAX_KV_MAPPINGS \<le> length ls" by simp
  ultimately show ?thesis
    by (simp add: load_appendLinks sliceLast_long) (simp add: sliceLast_def)
qed

text \<open>
  Claim C5. After more than 1000 appends through \<open>addMessageMappingKV\<close>, whatever the list
  held before, the stored list holds exactly 1000 links: the last 1000 that were appended,
  in order. A lookup that finds a link finds one of these 1000, and a lookup for an id that
  only evicted links carry returns the \<open>null\<close> result.
\<close>

theorem appends_keep_newest_thousand:
  assumes "1000 < length ls"
  shows "length (loadMappingsFromKV (appendLinks kv g ls) g) = 1000 \<and>
         loadMappingsFromKV (appendLinks kv g ls) g = drop (length ls - 1000) ls \<and>
         (\<forall>a b. findTopicMessageIdKV (appendLinks kv g ls) g q = (Some a, Some b) \<longrightarrow>
            \<lparr>link_topicId = a, link_topicMessageId = b, link_pmMessageId = q\<rparr>
              \<in> set (drop (length ls - 1000) ls)) \<and>
         (\<forall>a b. findPmMessageIdKV (appendLinks kv g ls) g q = (Some a, Some b) \<longrightarrow>
            \<lparr>link_topicId = a, link_topicMessageId = q, link_pmMessageId = b\<rparr>
              \<in> set (drop (length ls - 1000) ls)) \<and>
         ((\<forall>l \<in> set (drop (length ls - 1000) ls). link_pmMessageId l \<noteq> q) \<longrightarrow>
            findTopicMessageIdKV (appendLinks kv g ls) g q = (None, None)) \<and>
         ((\<forall>l \<in> set (drop (length ls - 1000) ls). link_topicMessageId l \<noteq> q) \<longrightarrow>
            findPmMessageIdKV (appendLinks kv g ls) g q = (None, None))"
proof -
  let ?kept = "drop (length ls - 1000) ls"
  from assms have ld: "loadMappingsFromKV (appendLinks kv g ls) g = ?kept"
    using load_appendLinks_many [of ls kv g] by (simp add: MAX_KV_MAPPINGS_def)
  from assms have len: "length ?kept = 1000" by simp
  have s1: "\<lparr>link_topicId = a, link_topicMessageId = b, link_pmMessageId = q\<rparr> \<in> set ?kept"
    if "findTopicMessageIdKV (appendLinks kv g ls) g q = (Some a, Some b)" for a b
    using scanByPm_some [of "length ?kept" ?kept q a b] that
    by (simp add: findTopicMessageIdKV_def ld Let_def)
  have s2: "\<lparr>link_topicId = a, link_topicMessageId = q, link_pmMessageId = b\<rparr> \<in> set ?kept"
    if "findPmMessageIdKV (appendLinks kv g ls) g q = (Some a, Some b)" for a b
    using scanByTopicMessage_some [of "length ?kept" ?kept q a b] that
    by (simp add: findPmMessageIdKV_def ld Let_def)
  have n1: "findTopicMessageIdKV (appendLinks kv g ls) g q = (None, None)"
    if "\<forall>l \<in> set ?kept. link_pmMessageId l \<noteq> q"
    using scanByPm_none [of "length ?kept" ?kept q] that
    by (simp add: findTopicMessageIdKV_def ld Let_def)
  have n2: "findPmMessageIdKV (appendLinks kv g ls) g q = (None, None)"
    if "\<forall>l \<in> set ?kept. link_topicMessageId l \<noteq> q"
    using scanByTopicMessage_none [of "length ?kept" ?kept q] that
    by (simp add: findPmMessageIdKV_def ld Let_def)
  from ld len s1 s2 n1 n2 show ?thesis by (simp only: simp_thms) blast
qed

text \<open>The theorem for 1001 appends onto the sample store: the first appended link, the only
  one with user-side id \<open>1\<close> and thread-side id \<open>100\<close>, is no longer found.\<close>

theorem appends_keep_newest_thousand_witness:
  "length (loadMappingsFromKV (appendLinks exampleKv (Num (- 100123)) manyLinks) (Num (- 100123)))
     = 1000 \<and>
   findTopicMessageIdKV (appendLinks exampleKv (Num (- 100123)) manyLinks) (Num (- 100123)) 1
     = (None, None) \<and>
   findPmMessageIdKV (appendLinks exampleKv (Num (- 100123)) manyLinks) (Num (- 100123)) 100
     = (None, None)"
proof -
  have h: "1000 < length manyLinks" by (simp add: manyLinks_def)
  have d: "drop (length manyLinks - 1000) manyLinks =
           replicate 1000 \<lparr>link_topicId = 10, link_topicMessageId = 200, link_pmMessageId = 2\<rparr>"
    by (simp add: manyLinks_def)
  from appends_keep_newest_thousand [OF h, of exampleKv "Num (- 100123)" 1]
       appends_keep_newest_thousand [OF h, of exampleKv "Num (- 100123)" 100]
  show ?thesis by (simp add: d)
qed

section \<open>The decoder accepts every text\<close>

text \<open>
  Claim C9. \<open>parseMetadataText\<close> is total. A \<open>null\<close> or empty text gives the empty
  structure: \<open>null\<close> group id, empty maps, empty blocked list. Every text gives a valid
  structure. In a non-empty text, whose first non-empty chunk is the group id, an entry is
  skipped when its topic chunk or its user chat chunk has no leading integer: the result
  is the one for the text without that entry. Every other entry has a reading, and an
  entry whose two ids are numeric and safe integers reads as the integers they write, with
  its blocked flag and its label. When the numbers of the record are safe integers, the
  decoded structure is the one its readings give, field by field: the group id, the two
  binding maps with a later entry for a key replacing an earlier one, the blocked topics,
  and the two label maps; and the binding maps are mutual inverses when no topic id and no
  user chat id is read twice.
\<close>

theorem parseMetadataText_total_and_lenient:
  "parseMetadataText None =
     \<lparr>superGroupChatId = Null, topicToFromChat = [], fromChatToTopic = [],
      bannedTopics = [], topicToComment = [], fromChatToComment = []\<rparr> \<and>
   parseMetadataText (Some []) =
     \<lparr>superGroupChatId = Null, topicToFromChat = [], fromChatToTopic = [],
      bannedTopics = [], topicToComment = [], fromChatToComment = []\<rparr> \<and>
   validStructure (parseMetadataText text) \<and>
   (filter (\<lambda>c. c \<noteq> []) (splitOn CHR '';'' s) = g # pre @ item # post \<and>
    \<not> (leadingInteger (topicChunk item) \<and> leadingInteger (chatChunk item)) \<longrightarrow>
      parseMetadataText (Some s) = parseMetadataText (Some (joinWith '';'' (g # pre @ post)))) \<and>
   (leadingInteger (topicChunk chunk) \<and> leadingInteger (chatChunk chunk) \<longrightarrow>
      entryOf chunk \<noteq> None) \<and>
   (numericId (topicChunk chunk) \<and> numericId (chatChunk chunk) \<and>
    safeInteger (decimalValue (topicChunk chunk)) \<and> safeInteger (decimalValue (chatChunk chunk)) \<longrightarrow>
      entryOf chunk =
        Some \<lparr>e_topic = decimalValue (topicChunk chunk), e_chat = decimalValue (chatChunk chunk),
               e_blocked = blockedEntry chunk, e_label = labelChunk chunk\<rparr>) \<and>
   (filter (\<lambda>c. c \<noteq> []) (splitOn CHR '';'' s) = g # pairs \<and> safeIds g pairs \<longrightarrow>
      parseMetadataText (Some s) =
        \<lparr>superGroupChatId = (case parseInt g of None \<Rightarrow> NaN | Some n \<Rightarrow> Num n),
         topicToFromChat =
           foldl (\<lambda>m e. Map_set m (e_topic e) (e_chat e)) [] (decodedEntries pairs),
         fromChatToTopic =
           foldl (\<lambda>m e. Map_set m (e_chat e) (e_topic e)) [] (decodedEntries pairs),
         bannedTopics = map (\<lambda>e. toString (e_topic e)) (filter e_blocked (decodedEntries pairs)),
         topicToComment =
           foldl (\<lambda>m e. Map_set m (e_topic e) (e_label e)) []
             (filter (\<lambda>e. e_label e \<noteq> []) (decodedEntries pairs)),
         fromChatToComment =
           foldl (\<lambda>m e. Map_set m (e_chat e) (e_label e)) []
             (filter (\<lambda>e. e_label e \<noteq> []) (decodedEntries pairs))\<rparr> \<and>
      (distinct (map e_topic (decodedEntries pairs)) \<and>
       distinct (map e_chat (decodedEntries pairs)) \<longrightarrow>
         mutualInverse (parseMetadataText (Some s))))"
proof -
  have a: "parseMetadataText None =
     \<lparr>superGroupChatId = Null, topicToFromChat = [], fromChatToTopic = [],
      bannedTopics = [], topicToComment = [], fromChatToComment = []\<rparr>"
    by (simp add: parseMetadataText_def emptyMetadata_def)
  have a': "parseMetadataText (Some []) =
     \<lparr>superGroupChatId = Null, topicToFromChat = [], fromChatToTopic = [],
      bannedTopics = [], topicToComment = [], fromChatToComment = []\<rparr>"
    by (simp add: parseMetadataText_def emptyMetadata_def)
  have b: "validStructure (parseMetadataText text)" by (rule parseMetadataText_valid)
  have c: "filter (\<lambda>c. c \<noteq> []) (splitOn CHR '';'' s) = g # pre @ item # post \<and>
    \<not> (leadingInteger (topicChunk item) \<and> leadingInteger (chatChunk item)) \<longrightarrow>
      parseMetadataText (Some s) = parseMetadataText (Some (joinWith '';'' (g # pre @ post)))"
  proof
    assume h: "filter (\<lambda>c. c \<noteq> []) (splitOn CHR '';'' s) = g # pre @ item # post \<and>
       \<not> (leadingInteger (topicChunk item) \<and> leadingInteger (chatChunk item))"
    then have "entryOf item = None" by (simp add: entryOf_None_iff)
    with h show "parseMetadataText (Some s) =
        parseMetadataText (Some (joinWith '';'' (g # pre @ post)))"
      using skip_entry [of "s" "g" "pre" "item" "post"] by blast
  qed
  have d: "leadingInteger (topicChunk chunk) \<and> leadingInteger (chatChunk chunk) \<longrightarrow>
      entryOf chunk \<noteq> None"
    by (simp add: entryOf_None_iff)
  have e: "numericId (topicChunk chunk) \<and> numericId (chatChunk chunk) \<and>
    safeInteger (decimalValue (topicChunk chunk)) \<and> safeInteger (decimalValue (chatChunk chunk)) \<longrightarrow>
      entryOf chunk =
        Some \<lparr>e_topic = decimalValue (topicChunk chunk), e_chat = decimalValue (chatChunk chunk),
               e_blocked = blockedEntry chunk, e_label = labelChunk chunk\<rparr>"
    using entryOf_numeric [of "chunk"] by blast
  have f: "filter (\<lambda>c. c \<noteq> []) (splitOn CHR '';'' s) = g # pairs \<and> safeIds g pairs \<longrightarrow>
      parseMetadataText (Some s) =
        \<lparr>superGroupChatId = (case parseInt g of None \<Rightarrow> NaN | Some n \<Rightarrow> Num n),
         topicToFromChat =
           foldl (\<lambda>m e. Map_set m (e_topic e) (e_chat e)) [] (decodedEntries pairs),
         fromChatToTopic =
           foldl (\<lambda>m e. Map_set m (e_chat e) (e_topic e)) [] (decodedEntries pairs),
         bannedTopics = map (\<lambda>e. toString (e_topic e)) (filter e_blocked (decodedEntries pairs)),
         topicToComment =
           foldl (\<lambda>m e. Map_set m (e_topic e) (e_label e)) []
             (filter (\<lambda>e. e_label e \<noteq> []) (decodedEntries pairs)),
         fromChatToComment =
           foldl (\<lambda>m e. Map_set m (e_chat e) (e_label e)) []
             (filter (\<lambda>e. e_label e \<noteq> []) (decodedEntries pairs))\<rparr> \<and>
      (distinct (map e_topic (decodedEntries pairs)) \<and>
       distinct (map e_chat (decodedEntries pairs)) \<longrightarrow>
         mutualInverse (parseMetadataText (Some s)))"
    using decoded_fields [of "s" "g" "pairs"] decoded_inverse [of "s" "g" "pairs"] by blast
  from a a' b c d e f show ?thesis by (intro conjI)
qed

text \<open>
  The theorem on a record with four entries: a plain one, one without a topic number, a
  blocked and labelled one, and one without a user chat number.
\<close>

theorem parseMetadataText_total_and_lenient_witness:
  "validStructure (parseMetadataText (Some ''-100123;10:555;x:1;11:b556:Bob;12:zz'')) \<and>
   parseMetadataText (Some ''-100123;10:555;x:1;11:b556:Bob;12:zz'') =
     parseMetadataText (Some ''-100123;10:555;11:b556:Bob;12:zz'') \<and>
   entryOf ''11:b556:Bob'' =
     Some \<lparr>e_topic = 11, e_chat = 556, e_blocked = True, e_label = ''Bob''\<rparr> \<and>
   parseMetadataText (Some ''-100123;10:555;x:1;11:b556:Bob;12:zz'') =
     \<lparr>superGroupChatId = Num (- 100123), topicToFromChat = [(10, 555), (11, 556)],
      fromChatToTopic = [(555, 10), (556, 11)], bannedTopics = [''11''],
      topicToComment = [(11, ''Bob'')], fromChatToComment = [(556, ''Bob'')]\<rparr> \<and>
   mutualInverse (parseMetadataText (Some ''-100123;10:555;x:1;11:b556:Bob;12:zz''))"
proof -
  let ?s = "''-100123;10:555;x:1;11:b556:Bob;12:zz''"
  let ?pairs = "[''10:555'', ''x:1'', ''11:b556:Bob'', ''12:zz'']"
  have ch: "filter (\<lambda>c. c \<noteq> []) (splitOn CHR '';'' ?s) =
            ''-100123'' # [''10:555''] @ ''x:1'' # [''11:b556:Bob'', ''12:zz'']"
    by simp
  have ch2: "filter (\<lambda>c. c \<noteq> []) (splitOn CHR '';'' ?s) = ''-100123'' # ?pairs"
    by simp
  have j: "joinWith '';'' (''-100123'' # [''10:555''] @ [''11:b556:Bob'', ''12:zz''])
           = ''-100123;10:555;11:b556:Bob;12:zz''"
    by simp
  have parts:
    "topicChunk ''x:1'' = ''x''"
    "topicChunk ''11:b556:Bob'' = ''11''" "chatChunk ''11:b556:Bob'' = ''556''"
    "blockedEntry ''11:b556:Bob''" "labelChunk ''11:b556:Bob'' = ''Bob''"
    by (simp_all add: topicChunk_def chatChunk_def blockedEntry_def labelChunk_def segment_def)
  have skip: "\<not> (leadingInteger (topicChunk ''x:1'') \<and> leadingInteger (chatChunk ''x:1''))"
    by (simp add: parts leadingInteger_def isWhiteSpace_def decimalDigit_def)
  have num: "numericId ''11''" "numericId ''556''" "decimalValue ''11'' = 11"
    "decimalValue ''556'' = 556"
    by (simp_all add: numericId_def decimalDigit_def decimalValue_def)
  have es: "decodedEntries ?pairs =
      [\<lparr>e_topic = 10, e_chat = 555, e_blocked = False, e_label = []\<rparr>,
       \<lparr>e_topic = 11, e_chat = 556, e_blocked = True, e_label = ''Bob''\<rparr>]"
    by (simp add: decodedEntries_def List.map_filter_simps entryOf_def topicChunk_def
          chatChunk_def blockedEntry_def labelChunk_def segment_def js_eval)
  have g: "parseInt ''-100123'' = Some (- 100123)"
    by (simp add: js_eval)
  have safe: "safeIds ''-100123'' ?pairs"
    by (simp add: safeIds_def es g safeInteger_def)
  have safe2: "safeInteger (decimalValue ''11'')" "safeInteger (decimalValue ''556'')"
    by (simp_all add: num safeInteger_def)
  have ts: "toString 11 = ''11''" by (simp add: js_eval)
  note t = parseMetadataText_total_and_lenient
         [of "Some ?s" ?s "''-100123''" "[''10:555'']" "''x:1''" "[''11:b556:Bob'', ''12:zz'']"
            "''11:b556:Bob''" ?pairs]
  from t have v: "validStructure (parseMetadataText (Some ?s))" by blast
  from t ch skip have "parseMetadataText (Some ?s) =
      parseMetadataText (Some (joinWith '';'' (''-100123'' # [''10:555''] @ [''11:b556:Bob'', ''12:zz''])))"
    by blast
  then have e: "parseMetadataText (Some ?s) =
      parseMetadataText (Some ''-100123;10:555;11:b556:Bob;12:zz'')"
    by (simp only: j)
  have n': "numericId (topicChunk ''11:b556:Bob'')" "numericId (chatChunk ''11:b556:Bob'')"
    "safeInteger (decimalValue (topicChunk ''11:b556:Bob''))"
    "safeInteger (decimalValue (chatChunk ''11:b556:Bob''))"
    using num(1,2) safe2 by (simp_all only: parts)
  from t n' have "entryOf ''11:b556:Bob'' =
        Some \<lparr>e_topic = decimalValue (topicChunk ''11:b556:Bob''),
               e_chat = decimalValue (chatChunk ''11:b556:Bob''),
               e_blocked = blockedEntry ''11:b556:Bob'', e_label = labelChunk ''11:b556:Bob''\<rparr>"
    by blast
  then have r: "entryOf ''11:b556:Bob'' =
     Some \<lparr>e_topic = 11, e_chat = 556, e_blocked = True, e_label = ''Bob''\<rparr>"
    by (simp add: parts num)
  have dist: "distinct (map e_topic (decodedEntries ?pairs))"
    "distinct (map e_chat (decodedEntries ?pairs))"
    by (simp_all add: es)
  from t ch2 safe have f0: "parseMetadataText (Some ?s) =
        \<lparr>superGroupChatId = (case parseInt ''-100123'' of None \<Rightarrow> NaN | Some n \<Rightarrow> Num n),
         topicToFromChat =
           foldl (\<lambda>m e. Map_set m (e_topic e) (e_chat e)) [] (decodedEntries ?pairs),
         fromChatToTopic =
           foldl (\<lambda>m e. Map_set m (e_chat e) (e_topic e)) [] (decodedEntries ?pairs),
         bannedTopics = map (\<lambda>e. toString (e_topic e)) (filter e_blocked (decodedEntries ?pairs)),
         topicToComment =
           foldl (\<lambda>m e. Map_set m (e_topic e) (e_label e)) []
             (filter (\<lambda>e. e_label e \<noteq> []) (decodedEntries ?pairs)),
         fromChatToComment =
           foldl (\<lambda>m e. Map_set m (e_chat e) (e_label e)) []
             (filter (\<lambda>e. e_label e \<noteq> []) (decodedEntries ?pairs))\<rparr>"
    by blast
  have f: "parseMetadataText (Some ?s) =
     \<lparr>superGroupChatId = Num (- 100123), topicToFromChat = [(10, 555), (11, 556)],
      fromChatToTopic = [(555, 10), (556, 11)], bannedTopics = [''11''],
      topicToComment = [(11, ''Bob'')], fromChatToComment = [(556, ''Bob'')]\<rparr>"
    by (subst f0) (simp add: es g ts)
  from t ch2 safe dist have m: "mutualInverse (parseMetadataText (Some ?s))" by blast
  from v e r f m show ?thesis by blast
qed

text \<open>
  An entry whose ids are not numeric but begin with digits is not skipped: \<open>10px:5x5\<close> is
  read as the binding of topic \<open>10\<close> to user chat \<open>5\<close>.
\<close>

theorem parseMetadataText_reads_numeric_prefix:
  "malformedEntry ''10px:5x5'' \<and>
   topicToFromChat (parseMetadataText (Some ''-100123;10px:5x5'')) = [(10, 5)] \<and>
   fromChatToTopic (parseMetadataText (Some ''-100123;10px:5x5'')) = [(5, 10)] \<and>
   parseMetadataText (Some ''-100123;10px:5x5'') \<noteq> parseMetadataText (Some ''-100123'')"
proof -
  have m: "malformedEntry ''10px:5x5''"
    by (simp add: malformedEntry_def numericId_def decimalDigit_def topicChunk_def segment_def)
  have ch: "filter (\<lambda>c. c \<noteq> []) (splitOn CHR '';'' ''-100123;10px:5x5'') =
            [''-100123'', ''10px:5x5'']"
    by simp
  have es: "decodedEntries [''10px:5x5''] =
      [\<lparr>e_topic = 10, e_chat = 5, e_blocked = False, e_label = []\<rparr>]"
    by (simp add: decodedEntries_def List.map_filter_simps entryOf_def topicChunk_def
          chatChunk_def blockedEntry_def labelChunk_def segment_def js_eval)
  have t: "topicToFromChat (parseMetadataText (Some ''-100123;10px:5x5'')) = [(10, 5)]"
    by (simp add: decoded_fields [OF ch] es)
  have c: "fromChatToTopic (parseMetadataText (Some ''-100123;10px:5x5'')) = [(5, 10)]"
    by (simp add: decoded_fields [OF ch] es)
  have ch0: "filter (\<lambda>c. c \<noteq> []) (splitOn CHR '';'' ''-100123'') = [''-100123'']"
    by simp
  have "topicToFromChat (parseMetadataText (Some ''-100123'')) = []"
    by (simp add: decoded_fields [OF ch0] decodedEntries_def List.map_filter_simps)
  with t have n: "parseMetadataText (Some ''-100123;10px:5x5'') \<noteq>
      parseMetadataText (Some ''-100123'')"
    by auto
  from m t c n show ?thesis by blast
qed

text \<open>
  The decoder does not make the binding maps mutual inverses: a record that names user
  chat \<open>555\<close> in two entries gives two topics for it in one map and one in the other.
\<close>

lemma parseMetadataText_repeated_chat:
  "validStructure (parseMetadataText (Some ''-100123;10:555;11:555'')) \<and>
   topicToFromChat (parseMetadataText (Some ''-100123;10:555;11:555'')) = [(10, 555), (11, 555)] \<and>
   fromChatToTopic (parseMetadataText (Some ''-100123;10:555;11:555'')) = [(555, 11)] \<and>
   \<not> mutualInverse (parseMetadataText (Some ''-100123;10:555;11:555''))"
proof -
  let ?d = "parseMetadataText (Some ''-100123;10:555;11:555'')"
  have ch: "filter (\<lambda>c. c \<noteq> []) (splitOn CHR '';'' ''-100123;10:555;11:555'') =
            [''-100123'', ''10:555'', ''11:555'']"
    by simp
  have es: "decodedEntries [''10:555'', ''11:555''] =
      [\<lparr>e_topic = 10, e_chat = 555, e_blocked = False, e_label = []\<rparr>,
       \<lparr>e_topic = 11, e_chat = 555, e_blocked = False, e_label = []\<rparr>]"
    by (simp add: decodedEntries_def List.map_filter_simps entryOf_def topicChunk_def
          chatChunk_def blockedEntry_def labelChunk_def segment_def js_eval)
  have t: "topicToFromChat ?d = [(10, 555), (11, 555)]"
    by (simp add: decoded_fields [OF ch] es)
  have c: "fromChatToTopic ?d = [(555, 11)]"
    by (simp add: decoded_fields [OF ch] es)
  have "Map_get (topicToFromChat ?d) 10 = Some 555" "Map_get (fromChatToTopic ?d) 555 \<noteq> Some 10"
    by (simp_all only: t c) simp_all
  then have n: "\<not> mutualInverse ?d" unfolding mutualInverse_iff by blast
  from parseMetadataText_valid [of "Some ''-100123;10:555;11:555''"] t c n
  show ?thesis by blast
qed

section \<open>Trimming keeps the newest bindings\<close>

text \<open>
  Claim C4, as the code has it. For every metadata structure with a group id that is not
  \<open>null\<close> (and prints in at most 4096 characters, as every JavaScript number does), whose
  topic map has one entry per key and whose encoding is longer than 4096 characters,
  \<open>trimMetadataEntries\<close> returns a text of at most 4096 characters: the encoding of the
  structure after its \<open>k\<close> oldest bindings were removed, where \<open>k\<close> is the first count at
  which the encoding fits. The structure is left with the bindings after the first \<open>k\<close>,
  and decoding the text gives exactly these bindings.
\<close>

theorem trimMetadataEntries_keeps_newest:
  assumes big: "4096 < length (serialize d)"
      and dist: "distinct (map fst (topicToFromChat d))"
      and gid: "superGroupChatId d \<noteq> Null"
      and glen: "length (joinElem (superGroupChatId d)) \<le> 4096"
  shows "length (fst (trimMetadataEntries d)) \<le> 4096 \<and>
         (\<exists>k. 0 < k \<and> k \<le> length (topicToFromChat d) \<and>
            (\<forall>j < k. 4096 < length (serialize (evictOldest j d))) \<and>
            fst (trimMetadataEntries d) = serialize (evictOldest k d) \<and>
            snd (trimMetadataEntries d) = evictOldest k d \<and>
            topicToFromChat (evictOldest k d) = drop k (topicToFromChat d) \<and>
            topicToFromChat (parseMetadataText (Some (fst (trimMetadataEntries d))))
              = drop k (topicToFromChat d))"
proof -
  from trimLoop_evicts [OF dist]
  obtain k where k: "k \<le> length (topicToFromChat d)"
      "trimLoop d = (serialize (evictOldest k d), evictOldest k d)"
      "\<forall>j < k. 4096 < length (serialize (evictOldest j d))"
      "length (serialize (evictOldest k d)) \<le> 4096 \<or> k = length (topicToFromChat d)"
    by (auto simp: MAX_TEXT_LENGTH_def)
  have tk: "topicToFromChat (evictOldest k d) = drop k (topicToFromChat d)"
    using dist by (rule evictOldest_topics)
  have fit: "length (serialize (evictOldest k d)) \<le> 4096"
  proof (cases "k = length (topicToFromChat d)")
    case True
    have "topicToFromChat (evictOldest k d) = []" unfolding tk using True by simp
    then show ?thesis using glen by (simp add: serialize_no_bindings evictOldest_group)
  next
    case False with k(4) show ?thesis by simp
  qed
  have pos: "0 < k"
  proof (rule ccontr)
    assume "\<not> 0 < k"
    then have "k = 0" by simp
    with fit big show False by simp
  qed
  have res: "trimMetadataEntries d = (serialize (evictOldest k d), evictOldest k d)"
    using big fit by (simp add: trimMetadataEntries_def Let_def MAX_TEXT_LENGTH_def k(2))
  have "distinct (map fst (drop k (topicToFromChat d)))"
    using dist by (simp add: distinct_drop drop_map [symmetric])
  then have dec: "topicToFromChat (parseMetadataText (Some (serialize (evictOldest k d))))
      = drop k (topicToFromChat d)"
    using roundtrip_bindings [of "superGroupChatId d" "drop k (topicToFromChat d)"
        "bannedTopics (evictOldest k d)" "topicToComment (evictOldest k d)"] gid
    by (simp add: serialize_def tk evictOldest_group)
  from fit pos k(1,3) tk dec show ?thesis
    unfolding res fst_conv snd_conv by blast
qed

text \<open>The theorem on three bindings whose oldest carries a label of 4100 characters: one
  eviction suffices.\<close>

theorem trimMetadataEntries_keeps_newest_witness:
  "length (fst (trimMetadataEntries longMeta)) \<le> 4096 \<and>
   fst (trimMetadataEntries longMeta) = ''-100123;11:556;12:557'' \<and>
   topicToFromChat (parseMetadataText (Some (fst (trimMetadataEntries longMeta))))
     = [(11, 556), (12, 557)]"
proof -
  have lm: "longMeta\<lparr>superGroupChatId := Num (- 100123)\<rparr> = longMeta"
    by (simp add: longMeta_def)
  have big: "4096 < length (serialize longMeta)"
    using longMeta_serialize_long [of "Num (- 100123)"] by (simp only: lm)
  have ev: "serialize (evictOldest (Suc 0) longMeta) = ''-100123;11:556;12:557''"
    using longMeta_serialize_evicted [of "Num (- 100123)"]
    by (simp only: lm) (simp add: joinElem_def toString_examples)
  have dist: "distinct (map fst (topicToFromChat longMeta))" by (simp add: longMeta_def)
  have gid: "superGroupChatId longMeta \<noteq> Null" by (simp add: longMeta_def)
  have glen: "length (joinElem (superGroupChatId longMeta)) \<le> 4096"
    by (simp add: longMeta_def joinElem_def toString_examples)
  from trimMetadataEntries_keeps_newest [OF big dist gid glen]
  obtain k where len: "length (fst (trimMetadataEntries longMeta)) \<le> 4096"
    and k: "0 < k" "\<forall>j < k. 4096 < length (serialize (evictOldest j longMeta))"
      "fst (trimMetadataEntries longMeta) = serialize (evictOldest k longMeta)"
      "topicToFromChat (parseMetadataText (Some (fst (trimMetadataEntries longMeta))))
         = drop k (topicToFromChat longMeta)"
    by blast
  have "\<not> Suc 0 < k"
  proof
    assume "Suc 0 < k"
    with k(2) have "4096 < length (serialize (evictOldest (Suc 0) longMeta))" by blast
    then show False by (simp only: ev) simp
  qed
  with k(1) have k1: "k = Suc 0" by arith
  have dr: "drop (Suc 0) (topicToFromChat longMeta) = [(11, 556), (12, 557)]"
    by (simp add: longMeta_def)
  from len k(3) [unfolded k1] k(4) [unfolded k1] ev dr show ?thesis
    by (simp del: evictOldest.simps)
qed

text \<open>
  C4 as stated fails for a structure with a \<open>null\<close> group id: the text that is returned
  holds the two newest bindings, and the decoder reads the first of them as the group id.
\<close>

theorem trimMetadataEntries_without_group_loses_binding:
  "4096 < length (serialize longMetaNoGroup) \<and>
   fst (trimMetadataEntries longMetaNoGroup) = '';11:556;12:557'' \<and>
   topicToFromChat (snd (trimMetadataEntries longMetaNoGroup)) = [(11, 556), (12, 557)] \<and>
   topicToFromChat (parseMetadataText (Some (fst (trimMetadataEntries longMetaNoGroup))))
     = [(12, 557)]"
proof -
  have big: "4096 < length (serialize longMetaNoGroup)"
    unfolding longMetaNoGroup_def by (rule longMeta_serialize_long)
  have tl: "topicToFromChat longMetaNoGroup = (10, 555) # [(11, 556), (12, 557)]"
    by (simp add: longMetaNoGroup_def longMeta_def)
  have ev1: "removeMapping longMetaNoGroup (fst (hd (topicToFromChat longMetaNoGroup)))
             = evictOldest (Suc 0) longMetaNoGroup"
    by (simp add: tl)
  have s1: "serialize (evictOldest (Suc 0) longMetaNoGroup) = '';11:556;12:557''"
    unfolding longMetaNoGroup_def longMeta_serialize_evicted by (simp add: joinElem_def)
  have l1: "trimLoop (evictOldest (Suc 0) longMetaNoGroup) =
            ('';11:556;12:557'', evictOldest (Suc 0) longMetaNoGroup)"
    by (subst trimLoop.simps) (simp only: s1 Let_def, simp add: MAX_TEXT_LENGTH_def)
  have l0: "trimLoop longMetaNoGroup = trimLoop (evictOldest (Suc 0) longMetaNoGroup)"
    using big by (subst trimLoop.simps) (simp only: ev1 Let_def, simp add: MAX_TEXT_LENGTH_def tl)
  have r: "trimMetadataEntries longMetaNoGroup =
           ('';11:556;12:557'', evictOldest (Suc 0) longMetaNoGroup)"
    using big by (simp add: trimMetadataEntries_def Let_def MAX_TEXT_LENGTH_def l0 l1
        del: evictOldest.simps)
  have t: "topicToFromChat (evictOldest (Suc 0) longMetaNoGroup) = [(11, 556), (12, 557)]"
    unfolding longMetaNoGroup_def longMeta_evicted by simp
  have p: "topicToFromChat (parseMetadataText (Some '';11:556;12:557'')) = [(12, 557)]"
    by (simp add: parseMetadataText_def emptyMetadata_def js_eval)
  from big r t p show ?thesis by (simp del: evictOldest.simps)
qed

section \<open>No thread for an administrator\<close>

text \<open>
  Claim C8. When the user chat has no binding and the reply to \<open>getChatMember\<close> gives the
  status \<open>creator\<close> or \<open>administrator\<close>, \<open>ensureTopic\<close> throws (\<open>AdminConflict\<close>) after
  that one request: it sends no \<open>createForumTopic\<close> and leaves the metadata, and so the
  bindings, as they were.
\<close>

theorem ensureTopic_rejects_administrator:
  assumes "Map_get (fromChatToTopic (w_metaData w)) u = None"
      and "Option.bind (reply_result (g (w_posts w) (GetChatMember (superGroupChatId (w_metaData w)) u)))
             res_status = Some ''creator'' \<or>
           Option.bind (reply_result (g (w_posts w) (GetChatMember (superGroupChatId (w_metaData w)) u)))
             res_status = Some ''administrator''"
  shows "ensureTopic g owner w mm u =
           (Inl AdminConflict,
            w\<lparr>w_posts := w_posts w @ [GetChatMember (superGroupChatId (w_metaData w)) u]\<rparr>) \<and>
         w_metaData (snd (ensureTopic g owner w mm u)) = w_metaData w \<and>
         filter (\<lambda>c. \<exists>chat. c = CreateForumTopic chat) (w_posts (snd (ensureTopic g owner w mm u)))
           = filter (\<lambda>c. \<exists>chat. c = CreateForumTopic chat) (w_posts w)"
  using assms by (auto simp: ensureTopic_def isSupergroupAdmin_eq truthy_def Let_def)

text \<open>The theorem for the unbound chat \<open>777\<close> on a platform that reports administrators.\<close>

theorem ensureTopic_rejects_administrator_witness:
  "ensureTopic adminGateway 1 exampleWorld (Some okResult) 777 =
     (Inl AdminConflict, exampleWorld\<lparr>w_posts := [GetChatMember (Num (- 100123)) 777]\<rparr>)"
proof -
  have a: "Map_get (fromChatToTopic (w_metaData exampleWorld)) 777 = None"
    by (simp add: exampleWorld_def exampleMeta_def)
  have b: "Option.bind (reply_result (adminGateway (w_posts exampleWorld)
             (GetChatMember (superGroupChatId (w_metaData exampleWorld)) 777))) res_status
           = Some ''creator'' \<or>
           Option.bind (reply_result (adminGateway (w_posts exampleWorld)
             (GetChatMember (superGroupChatId (w_metaData exampleWorld)) 777))) res_status
           = Some ''administrator''"
    by (simp add: adminGateway_def okResult_def)
  from a b ensureTopic_rejects_administrator
         [where w = exampleWorld and u = 777 and g = adminGateway and owner = 1
            and mm = "Some okResult"]
  have "ensureTopic adminGateway 1 exampleWorld (Some okResult) 777 =
           (Inl AdminConflict,
            exampleWorld\<lparr>w_posts := w_posts exampleWorld @
               [GetChatMember (superGroupChatId (w_metaData exampleWorld)) 777]\<rparr>)"
    by blast
  then show ?thesis by (simp add: exampleWorld_def exampleMeta_def)
qed

section \<open>A blocked chat is not relayed\<close>




section \<open>The retry after a thread-invalid rejection is not bounded\<close>

text \<open>
  Claim C2 says that \<open>forwardPrivateToTopic\<close> retries exactly once and always terminates.
  The code calls itself after every recovery and counts nothing. In the deployment without
  a key-value namespace \<open>cleanupTopicMessages\<close> purges nothing, so a reply to a message whose
  link points into a deleted thread resolves to that thread again on every retry: whatever
  the number of calls allowed, the relay has not returned.
\<close>

theorem relay_to_dead_thread_never_returns:
  "forwardPrivateToTopic fuel deadThreadGateway 1 pinnedWorld (Some okResult) replyMessage = None"
  by (rule dead_never_returns) (simp_all add: pinnedWorld_def exampleWorld_def)

text \<open>With a bound namespace the same happens on a platform that rejects every copy, into
  the threads created during the retries as well.\<close>

theorem relay_retries_without_bound:
  "forwardPrivateToTopic fuel stubbornGateway 1 exampleWorld (Some okResult) exampleMessage = None"
  by (rule forward_never_returns) (simp add: exampleWorld_def exampleMeta_def)

end
